theory Spec2Isabelle
  imports Complex_Main "HOL-Library.Sublist"
begin

section \<open>JavaScript values\<close>

text \<open>
  The progress page (\<^verbatim>\<open>src/pages/progress.tsx\<close>) works on loosely typed data that
  arrives as JSON. A value is modelled by the datatype \<open>jsv\<close>. Numbers are exact reals:
  the rounding of IEEE-754 doubles, infinities and a NaN stored in the data are outside
  the model (JSON cannot carry NaN); the one NaN the page computes itself, the mean of an
  empty array, is modelled by \<open>None\<close>. An object is an association list read with
  \<open>map_of\<close>.
\<close>

datatype jsv =
    JUndefined
  | JNull
  | JBool bool
  | JNum real
  | JStr string
  | JArr "jsv list"
  | JObj "(string \<times> jsv) list"

text \<open>Truthiness, as \<^verbatim>\<open>!v\<close> and \<^verbatim>\<open>v && ...\<close> test it.\<close>

fun truthy :: "jsv \<Rightarrow> bool" where
  "truthy JUndefined = False"
| "truthy JNull = False"
| "truthy (JBool b) = b"
| "truthy (JNum n) = (n \<noteq> 0)"
| "truthy (JStr s) = (s \<noteq> [])"
| "truthy (JArr xs) = True"
| "truthy (JObj kvs) = True"

fun typeof :: "jsv \<Rightarrow> string" where
  "typeof JUndefined = ''undefined''"
| "typeof JNull = ''object''"
| "typeof (JBool b) = ''boolean''"
| "typeof (JNum n) = ''number''"
| "typeof (JStr s) = ''string''"
| "typeof (JArr xs) = ''object''"
| "typeof (JObj kvs) = ''object''"

text \<open>
  \<^verbatim>\<open>k in v\<close> and \<^verbatim>\<open>v[k]\<close> for the keys the page reads (the five category names,
  \<^verbatim>\<open>score\<close>, \<^verbatim>\<open>scores\<close>): none of them is an index or \<^verbatim>\<open>length\<close>, so on an array
  or a primitive the key is absent and the read gives \<^verbatim>\<open>undefined\<close>.
\<close>

fun hasProp :: "string \<Rightarrow> jsv \<Rightarrow> bool" where
  "hasProp k (JObj kvs) = (map_of kvs k \<noteq> None)"
| "hasProp k v = False"

fun getProp :: "jsv \<Rightarrow> string \<Rightarrow> jsv" where
  "getProp (JObj kvs) k = (case map_of kvs k of Some v \<Rightarrow> v | None \<Rightarrow> JUndefined)"
| "getProp v k = JUndefined"

text \<open>\<^verbatim>\<open>v?.[k]\<close>: \<^verbatim>\<open>undefined\<close> when \<open>v\<close> is null or undefined.\<close>

definition optProp :: "jsv \<Rightarrow> string \<Rightarrow> jsv" where
  "optProp v k = (if v = JUndefined \<or> v = JNull then JUndefined else getProp v k)"

text \<open>\<^verbatim>\<open>a ?? b\<close>\<close>

definition nullish :: "jsv \<Rightarrow> jsv \<Rightarrow> jsv" where
  "nullish a b = (if a = JUndefined \<or> a = JNull then b else a)"

section \<open>Types and helpers of the page\<close>

datatype category = Opening | Content | Delivery | Grammar | Overall

fun keyName :: "category \<Rightarrow> string" where
  "keyName Opening = ''opening''"
| "keyName Content = ''content''"
| "keyName Delivery = ''delivery''"
| "keyName Grammar = ''grammar''"
| "keyName Overall = ''overall''"

text \<open>
  \<^verbatim>\<open>
  function scoreOf(fb, key) {
    if (!fb) return null;
    const sec = (fb as any)[key] as Section;
    let inline = null;
    if (sec && typeof sec === "object" && "score" in sec) inline = (sec as any).score;
    const fromBlock = fb.scores?.[key];
    return (inline ?? fromBlock) ?? null;
  }
  \<close>
\<close>

definition inlineScore :: "jsv \<Rightarrow> jsv" where
  "inlineScore sec =
     (if truthy sec \<and> typeof sec = ''object'' \<and> hasProp ''score'' sec
      then getProp sec ''score'' else JNull)"

definition fromBlock :: "jsv \<Rightarrow> category \<Rightarrow> jsv" where
  "fromBlock fb key = optProp (getProp fb ''scores'') (keyName key)"

definition scoreOf :: "jsv \<Rightarrow> category \<Rightarrow> jsv" where
  "scoreOf fb key =
     (if \<not> truthy fb then JNull
      else nullish (nullish (inlineScore (getProp fb (keyName key))) (fromBlock fb key)) JNull)"

text \<open>
  \<^verbatim>\<open>startsWith\<close> and \<^verbatim>\<open>endsWith\<close> on strings.
\<close>

definition startsWith :: "string \<Rightarrow> string \<Rightarrow> bool" where
  "startsWith s p = (take (length p) s = p)"

definition endsWith :: "string \<Rightarrow> string \<Rightarrow> bool" where
  "endsWith s p = (drop (length s - length p) s = p)"

text \<open>
  The exceptions a built-in can throw. \<^verbatim>\<open>JSON.parse\<close> is a built-in, a parameter
  \<open>jsonParse\<close> of the model: \<open>Inl SyntaxError\<close> is the throw, \<open>Inr v\<close> the parsed value.
  \<^verbatim>\<open>String.prototype.trim\<close> is a built-in too, the parameter \<open>trim\<close>: which characters
  it strips (the white space and line terminators of Unicode) is its own matter.
  \<^verbatim>\<open>
  function parseMaybeJSON(v) {
    if (typeof v === "string") {
      const s = v.trim();
      if ((s.startsWith("{") && s.endsWith("}")) || (s.startsWith("[") && s.endsWith("]"))) {
        try { return JSON.parse(s); } catch { return v; }
      }
    }
    return v;
  }
  \<close>
\<close>

datatype jserror = SyntaxError | TypeError | RangeError

definition looksJSON :: "string \<Rightarrow> bool" where
  "looksJSON s =
     ((startsWith s ''{'' \<and> endsWith s ''}'') \<or> (startsWith s ''['' \<and> endsWith s '']''))"

definition parseMaybeJSON ::
    "(string \<Rightarrow> string) \<Rightarrow> (string \<Rightarrow> jserror + jsv) \<Rightarrow> jsv \<Rightarrow> jserror + jsv" where
  "parseMaybeJSON trim jsonParse v =
     (case v of
        JStr str \<Rightarrow>
          (let s = trim str in
           if looksJSON s
           then (case jsonParse s of Inr parsed \<Rightarrow> Inr parsed | Inl e \<Rightarrow> Inr v)
           else Inr v)
      | _ \<Rightarrow> Inr v)"

text \<open>
  The two built-ins on the inputs of the examples. \<open>sampleTrim\<close> is
  \<^verbatim>\<open>String.prototype.trim\<close> on a string of characters with codes below 256: of these
  JavaScript strips tab, line feed, vertical tab, form feed, carriage return, space and
  the no-break space U+00A0. \<open>sampleParse\<close> is \<^verbatim>\<open>JSON.parse\<close> on two sample texts.
\<close>

definition isWhite :: "char \<Rightarrow> bool" where
  "isWhite c =
     (c \<in> set [CHR 0x09, CHR 0x0A, CHR 0x0B, CHR 0x0C, CHR 0x0D, CHR 0x20, CHR 0xA0])"

definition sampleTrim :: "string \<Rightarrow> string" where
  "sampleTrim s = rev (dropWhile isWhite (rev (dropWhile isWhite s)))"

definition sampleParse :: "string \<Rightarrow> jserror + jsv" where
  "sampleParse s =
     (if s = [CHR ''{'', CHR 0x22, CHR ''s'', CHR ''c'', CHR ''o'', CHR ''r'', CHR ''e'',
              CHR 0x22, CHR '':'', CHR ''8'', CHR ''0'', CHR ''}'']
      then Inr (JObj [(''score'', JNum 80)])
      else if s = ''[]'' then Inr (JArr [])
      else Inl SyntaxError)"

text \<open>
  One analysed speech. \<open>created_at\<close> holds the epoch milliseconds that
  \<^verbatim>\<open>new Date(created_at).getTime()\<close> reads from the ISO-8601 text, \<open>None\<close> when the
  field is missing or empty; a text that is not a date is outside the model.
  \<open>feedback\<close> is \<open>JUndefined\<close> when the record carries none. The field \<^verbatim>\<open>id\<close> is
  \<open>item_id\<close> here.
\<close>

record HistoryItem =
  item_id :: int
  transcript :: "string option"
  created_at :: "int option"
  feedback :: jsv

text \<open>
  The range control \<^verbatim>\<open>"7" | "30" | "90" | "all"\<close>, and \<^verbatim>\<open>parseInt(range, 10)\<close> on it:
  \<open>None\<close> is the NaN that \<^verbatim>\<open>"all"\<close> parses to.
\<close>

datatype range = R7 | R30 | R90 | RAll

fun parseInt :: "range \<Rightarrow> int option" where
  "parseInt R7 = Some 7"
| "parseInt R30 = Some 30"
| "parseInt R90 = Some 90"
| "parseInt RAll = None"

section \<open>Sorting and filtering the history\<close>

text \<open>
  \<^verbatim>\<open>
  sorted = [...items].sort((a, b) => da - db)     // da = created_at ? getTime : 0
  filtered = range === "all" ? sorted
           : sorted.filter(it => it.created_at ? getTime >= cutoff : false)
  \<close>
  \<^verbatim>\<open>Array.prototype.sort\<close> is stable, as the insertion sort \<open>sort_key\<close> is.
  \<open>now\<close> is \<^verbatim>\<open>Date.now()\<close>. A cutoff that is NaN makes every comparison false.
\<close>

definition timeOf :: "HistoryItem \<Rightarrow> int" where
  "timeOf it = (case created_at it of Some t \<Rightarrow> t | None \<Rightarrow> 0)"

definition sortedItems :: "HistoryItem list \<Rightarrow> HistoryItem list" where
  "sortedItems items = sort_key timeOf items"

definition filtered :: "int \<Rightarrow> range \<Rightarrow> HistoryItem list \<Rightarrow> HistoryItem list" where
  "filtered now rng srt =
     (if rng = RAll then srt
      else (case parseInt rng of
              None \<Rightarrow> []
            | Some days \<Rightarrow>
                (let cutoff = now - days * 24 * 3600 * 1000
                 in filter (\<lambda>it. case created_at it of Some t \<Rightarrow> t \<ge> cutoff | None \<Rightarrow> False)
                      srt)))"

section \<open>Totals\<close>

text \<open>\<^verbatim>\<open>.filter(v => typeof v === "number")\<close>\<close>

fun numbers :: "jsv list \<Rightarrow> real list" where
  "numbers [] = []"
| "numbers (JNum n # vs) = n # numbers vs"
| "numbers (v # vs) = numbers vs"




text \<open>
  The streak. \<open>dayStart t\<close> is the local midnight of the calendar day of \<open>t\<close>, what
  \<^verbatim>\<open>new Date(d.getFullYear(), d.getMonth(), d.getDate()).getTime()\<close> and
  \<^verbatim>\<open>cursor.setHours(0,0,0,0)\<close> compute in the time zone of the browser; it is a parameter.
  \<^verbatim>\<open>
  if (sorted.length === 0) return 0;
  const days = Array.from(new Set(sorted.map(it => ...).filter(Boolean))).sort((a, b) => a - b);
  if (days.length === 0) return 0;
  let s = 0; let cursor = new Date(); cursor.setHours(0,0,0,0);
  for (;;) {
    const ts = cursor.getTime();
    if (days.includes(ts)) { s += 1; cursor = new Date(ts - 24*3600*1000); }
    else break;
  }
  return s;
  \<close>
  \<^verbatim>\<open>filter(Boolean)\<close> drops \<^verbatim>\<open>null\<close> and the number 0.
\<close>

definition streakDays :: "(int \<Rightarrow> int) \<Rightarrow> HistoryItem list \<Rightarrow> int list" where
  "streakDays dayStart srt =
     sort (remdups (List.map_filter
       (\<lambda>it. case created_at it of
                None \<Rightarrow> None
              | Some t \<Rightarrow> if dayStart t = 0 then None else Some (dayStart t)) srt))"

function streakLoop :: "int list \<Rightarrow> int \<Rightarrow> nat \<Rightarrow> nat" where
  "streakLoop days ts s =
     (if ts \<in> set days then streakLoop days (ts - 24 * 3600 * 1000) (s + 1) else s)"
  by pat_completeness auto
termination
proof (relation "measure (\<lambda>(days, ts, s). length (filter (\<lambda>d. d \<le> ts) days))")
  show "wf (measure (\<lambda>(days, ts, s). length (filter (\<lambda>d. d \<le> ts) days)))"
    by simp
next
  fix days :: "int list" and ts :: int and s :: nat
  assume mem: "ts \<in> set days"
  have "length (filter (\<lambda>d. d \<le> ts - 24 * 3600 * 1000) days)
          < length (filter (\<lambda>d. d \<le> ts) days)"
    using mem
  proof (induction days)
    case Nil
    then show ?case by simp
  next
    case (Cons a as)
    have le: "length (filter (\<lambda>d. d \<le> ts - 24 * 3600 * 1000) as)
                \<le> length (filter (\<lambda>d. d \<le> ts) as)"
      by (induction as) auto
    show ?case
    proof (cases "a = ts")
      case True
      then show ?thesis using le by simp
    next
      case False
      then have "ts \<in> set as" using Cons.prems by simp
      then show ?thesis using Cons.IH by auto
    qed
  qed
  then show "((days, ts - 24 * 3600 * 1000, s + 1), (days, ts, s))
               \<in> measure (\<lambda>(days, ts, s). length (filter (\<lambda>d. d \<le> ts) days))"
    by simp
qed

declare streakLoop.simps [simp del]

definition streak :: "(int \<Rightarrow> int) \<Rightarrow> int \<Rightarrow> HistoryItem list \<Rightarrow> nat" where
  "streak dayStart now srt =
     (if length srt = 0 then 0
      else (let days = streakDays dayStart srt
            in if length days = 0 then 0 else streakLoop days (dayStart now) 0))"

section \<open>Insights\<close>

text \<open>
  \<^verbatim>\<open>
  const half = Math.floor(sorted.length / 2);
  const keys = ["opening","content","delivery","grammar","overall"];
  const deltas = keys.map(k => {
    const first = sorted.slice(0, half).map(h => scoreOf(h.feedback, k)).filter(number);
    const second = sorted.slice(half).map(h => scoreOf(h.feedback, k)).filter(number);
    const avg = (arr) => arr.length ? arr.reduce((a,b)=>a+b,0)/arr.length : NaN;
    return { key: k, delta: (avg(second) - avg(first)) || 0 };
  }).sort((a,b)=> (b.delta||0)-(a.delta||0));
  const mostImproved = deltas[0];
  \<close>
  A number that may be NaN is a \<open>real option\<close>, \<open>None\<close> for NaN: a difference with a
  NaN operand is NaN, and \<^verbatim>\<open>v || 0\<close> is 0 for NaN and for 0.
\<close>

definition keys :: "category list" where
  "keys = [Opening, Content, Delivery, Grammar, Overall]"

definition avg :: "real list \<Rightarrow> real option" where
  "avg arr = (if length arr \<noteq> 0 then Some (foldl (+) 0 arr / real (length arr)) else None)"

fun minusNaN :: "real option \<Rightarrow> real option \<Rightarrow> real option" where
  "minusNaN (Some a) (Some b) = Some (a - b)"
| "minusNaN a b = None"

fun orZero :: "real option \<Rightarrow> real" where
  "orZero None = 0"
| "orZero (Some d) = (if d = 0 then 0 else d)"

definition deltaOf :: "HistoryItem list \<Rightarrow> category \<Rightarrow> real" where
  "deltaOf srt k =
     (let half = length srt div 2;
          first = numbers (map (\<lambda>h. scoreOf (feedback h) k) (take half srt));
          second = numbers (map (\<lambda>h. scoreOf (feedback h) k) (drop half srt))
      in orZero (minusNaN (avg second) (avg first)))"

definition deltas :: "HistoryItem list \<Rightarrow> (category \<times> real) list" where
  "deltas srt =
     sort_key (\<lambda>d. - orZero (Some (snd d))) (map (\<lambda>k. (k, deltaOf srt k)) keys)"

text \<open>\<open>None\<close> is the \<^verbatim>\<open>null\<close> of \<^verbatim>\<open>insights\<close> on an empty history.\<close>

definition mostImproved :: "HistoryItem list \<Rightarrow> (category \<times> real) option" where
  "mostImproved srt =
     (if length srt = 0 then None
      else (case deltas srt of [] \<Rightarrow> None | d # ds \<Rightarrow> Some d))"

section \<open>Chart\<close>

text \<open>
  A point \<^verbatim>\<open>{x, y, t, id}\<close> of a series: \<open>px\<close> is the time stamp in milliseconds
  (\<^verbatim>\<open>d.getTime()\<close>, an integer), \<open>py\<close> the score, \<open>pt\<close> the ISO text, \<open>pid\<close> the
  record's id. A series \<^verbatim>\<open>{key, label, color, points}\<close> has the fields \<open>skey\<close>,
  \<open>slabel\<close>, \<open>scolor\<close>, \<open>spoints\<close>.
\<close>

record point =
  px :: int
  py :: real
  pt :: string
  pid :: int

record series =
  skey :: string
  slabel :: string
  scolor :: string
  spoints :: "point list"

text \<open>\<^verbatim>\<open>xs.slice(a, b)\<close> for \<open>0 \<le> a\<close>, \<open>0 \<le> b\<close>.\<close>

definition slice :: "'a list \<Rightarrow> nat \<Rightarrow> nat \<Rightarrow> 'a list" where
  "slice xs a b = drop a (take b xs)"

text \<open>
  \<^verbatim>\<open>
  function movingAvg(points, window = 3) {
    if (window <= 1) return points;
    const out = [];
    for (let i = 0; i < points.length; i++) {
      const from = Math.max(0, i - (window - 1));
      const win = points.slice(from, i + 1);
      const y = win.reduce((a, p) => a + p.y, 0) / win.length;
      out.push({ ...points[i], y });
    }
    return out;
  }
  \<close>
\<close>

definition movingAvgAt :: "point list \<Rightarrow> int \<Rightarrow> nat \<Rightarrow> point" where
  "movingAvgAt points window i =
     (let from = nat (max 0 (int i - (window - 1)));
          win = slice points from (i + 1);
          y = foldl (\<lambda>a p. a + py p) 0 win / real (length win)
      in (points ! i)\<lparr>py := y\<rparr>)"

definition movingAvg :: "point list \<Rightarrow> int \<Rightarrow> point list" where
  "movingAvg points window =
     (if window \<le> 1 then points
      else map (movingAvgAt points window) [0..<length points])"

text \<open>
  The chart: \<^verbatim>\<open>w = 900\<close>; \<open>h\<close>, \<open>padding\<close>, \<open>yMin\<close>, \<open>yMax\<close> are the properties of the
  component (260, 36, 0 and 100 when the caller gives none).
  \<^verbatim>\<open>
  const all = series.flatMap(s => s.points);
  const xs = all.map(p => p.x);
  const minX = Math.min(...xs);  const maxX = Math.max(...xs);
  const xScale = (x) => padding + ((x - minX) / Math.max(1, maxX - minX)) * (w - padding * 2);
  const yScale = (y) => h - padding - ((y - yMin) / Math.max(1, yMax - yMin)) * (h - padding * 2);
  \<close>
  The component returns the empty state before it computes \<open>minX\<close> when there is no
  point, so \<open>mathMin\<close> and \<open>mathMax\<close> are only read on a non-empty list (on the empty
  one JavaScript gives an infinity, here 0).
\<close>

record chart =
  height :: real
  padding :: real
  yMin :: real
  yMax :: real

definition defaultChart :: chart where
  "defaultChart = \<lparr>height = 260, padding = 36, yMin = 0, yMax = 100\<rparr>"

definition w :: real where
  "w = 900"

fun mathMin :: "int list \<Rightarrow> int" where
  "mathMin [] = 0"
| "mathMin (x # xs) = fold min xs x"

fun mathMax :: "int list \<Rightarrow> int" where
  "mathMax [] = 0"
| "mathMax (x # xs) = fold max xs x"

definition allPoints :: "series list \<Rightarrow> point list" where
  "allPoints ser = concat (map spoints ser)"

definition minX :: "series list \<Rightarrow> int" where
  "minX ser = mathMin (map px (allPoints ser))"

definition maxX :: "series list \<Rightarrow> int" where
  "maxX ser = mathMax (map px (allPoints ser))"

definition xDenom :: "series list \<Rightarrow> real" where
  "xDenom ser = max 1 (real_of_int (maxX ser - minX ser))"

definition xScale :: "chart \<Rightarrow> series list \<Rightarrow> real \<Rightarrow> real" where
  "xScale c ser x =
     padding c + ((x - real_of_int (minX ser)) / xDenom ser) * (w - padding c * 2)"

definition yScale :: "chart \<Rightarrow> real \<Rightarrow> real" where
  "yScale c y =
     height c - padding c - ((y - yMin c) / max 1 (yMax c - yMin c)) * (height c - padding c * 2)"

text \<open>
  \<^verbatim>\<open>
  let best = null;
  for (const s of series) {
    for (const p of s.points) {
      const dx = xScale(p.x) - mx;
      const dy = yScale(p.y) - my;
      const dist = Math.hypot(dx, dy);
      if (!best || dist < best.dist) best = { label: s.label, x: p.x, y: p.y, t: p.t, color: s.color, dist, id: p.id };
    }
  }
  onHover(best ? { label, x, y, t, color, id } : null);
  \<close>
  \<open>handleMouse\<close> is the value the handler passes to \<^verbatim>\<open>onHover\<close>, for the pointer at
  \<open>(mx, my)\<close>; \<open>None\<close> is \<^verbatim>\<open>null\<close>.
\<close>

record hover =
  hlabel :: string
  hx :: int
  hy :: real
  ht :: string
  hcolor :: string
  hid :: int

record best = hover +
  bdist :: real

definition hypot :: "real \<Rightarrow> real \<Rightarrow> real" where
  "hypot dx dy = sqrt (dx * dx + dy * dy)"

definition distOf :: "chart \<Rightarrow> series list \<Rightarrow> real \<Rightarrow> real \<Rightarrow> point \<Rightarrow> real" where
  "distOf c ser mx my p =
     (let dx = xScale c ser (real_of_int (px p)) - mx;
          dy = yScale c (py p) - my
      in hypot dx dy)"

definition candidate :: "series \<Rightarrow> point \<Rightarrow> real \<Rightarrow> best" where
  "candidate s p d =
     \<lparr>hlabel = slabel s, hx = px p, hy = py p, ht = pt p, hcolor = scolor s, hid = pid p,
      bdist = d\<rparr>"

definition nearer :: "chart \<Rightarrow> series list \<Rightarrow> real \<Rightarrow> real \<Rightarrow> series \<Rightarrow> point
    \<Rightarrow> best option \<Rightarrow> best option" where
  "nearer c ser mx my s p b =
     (let d = distOf c ser mx my p
      in case b of
           None \<Rightarrow> Some (candidate s p d)
         | Some b' \<Rightarrow> if d < bdist b' then Some (candidate s p d) else b)"

definition nearest :: "chart \<Rightarrow> series list \<Rightarrow> real \<Rightarrow> real \<Rightarrow> best option" where
  "nearest c ser mx my =
     fold (\<lambda>s b. fold (nearer c ser mx my s) (spoints s) b) ser None"

definition handleMouse :: "chart \<Rightarrow> series list \<Rightarrow> real \<Rightarrow> real \<Rightarrow> hover option" where
  "handleMouse c ser mx my =
     (case nearest c ser mx my of
        None \<Rightarrow> None
      | Some b \<Rightarrow> Some \<lparr>hlabel = hlabel b, hx = hx b, hy = hy b, ht = ht b,
                         hcolor = hcolor b, hid = hid b\<rparr>)"

section \<open>CSV export\<close>

text \<open>
  \<^verbatim>\<open>String(c)\<close> on a value; \<open>numStr\<close> is the built-in conversion of a number to its
  decimal text, a parameter. An array prints its elements joined by commas, with
  \<^verbatim>\<open>null\<close> and \<^verbatim>\<open>undefined\<close> empty.
\<close>

fun joinWith :: "string \<Rightarrow> string list \<Rightarrow> string" where
  "joinWith sep [] = []"
| "joinWith sep [x] = x"
| "joinWith sep (x # y # ys) = x @ sep @ joinWith sep (y # ys)"

fun jsString :: "(real \<Rightarrow> string) \<Rightarrow> jsv \<Rightarrow> string" where
  "jsString numStr JUndefined = ''undefined''"
| "jsString numStr JNull = ''null''"
| "jsString numStr (JBool b) = (if b then ''true'' else ''false'')"
| "jsString numStr (JNum n) = numStr n"
| "jsString numStr (JStr s) = s"
| "jsString numStr (JArr xs) =
     joinWith '','' (map (\<lambda>x. if x = JUndefined \<or> x = JNull then [] else jsString numStr x) xs)"
| "jsString numStr (JObj kvs) = ''[object Object]''"

text \<open>
  \<^verbatim>\<open>
  const rows = [["id","date","opening","content","delivery","grammar","overall"]];
  sorted.forEach(it => {
    const d = it.created_at ? new Date(it.created_at) : null;
    const r = [ it.id, d ? d.toISOString() : "",
                scoreOf(it.feedback,"opening") ?? "", scoreOf(it.feedback,"content") ?? "",
                scoreOf(it.feedback,"delivery") ?? "", scoreOf(it.feedback,"grammar") ?? "",
                scoreOf(it.feedback,"overall") ?? "" ];
    rows.push(r.map(c => String(c)));
  });
  const csv = rows.map(r => r.map(cell =>
      /[",\n]/.test(cell) ? `"${cell.replace(/"/g,'""')}"` : cell).join(",")).join("\n");
  \<close>
  \<open>toISO\<close> is \<^verbatim>\<open>Date.prototype.toISOString\<close> on the epoch milliseconds, a parameter.
  \<open>exportCsv\<close> is the text of the document the page offers for download.
\<close>

definition dquote :: char where
  "dquote = CHR 0x22"

definition newline :: char where
  "newline = CHR 0x0A"

definition header :: "string list" where
  "header = [''id'', ''date'', ''opening'', ''content'', ''delivery'', ''grammar'', ''overall'']"

definition csvRow :: "(real \<Rightarrow> string) \<Rightarrow> (int \<Rightarrow> string) \<Rightarrow> HistoryItem \<Rightarrow> string list" where
  "csvRow numStr toISO it =
     (let r = [JNum (real_of_int (item_id it)),
               JStr (case created_at it of Some t \<Rightarrow> toISO t | None \<Rightarrow> []),
               nullish (scoreOf (feedback it) Opening) (JStr []),
               nullish (scoreOf (feedback it) Content) (JStr []),
               nullish (scoreOf (feedback it) Delivery) (JStr []),
               nullish (scoreOf (feedback it) Grammar) (JStr []),
               nullish (scoreOf (feedback it) Overall) (JStr [])]
      in map (jsString numStr) r)"

definition needsQuote :: "string \<Rightarrow> bool" where
  "needsQuote cell = list_ex (\<lambda>ch. ch = dquote \<or> ch = CHR '','' \<or> ch = newline) cell"

definition doubleQuotes :: "string \<Rightarrow> string" where
  "doubleQuotes cell = concat (map (\<lambda>ch. if ch = dquote then [dquote, dquote] else [ch]) cell)"

definition quoteCell :: "string \<Rightarrow> string" where
  "quoteCell cell = (if needsQuote cell then [dquote] @ doubleQuotes cell @ [dquote] else cell)"

definition exportCsv :: "(real \<Rightarrow> string) \<Rightarrow> (int \<Rightarrow> string) \<Rightarrow> HistoryItem list \<Rightarrow> string" where
  "exportCsv numStr toISO srt =
     (let rows = header # map (csvRow numStr toISO) srt
      in joinWith [newline] (map (\<lambda>r. joinWith '','' (map quoteCell r)) rows))"

text \<open>
  The two built-in conversions on the inputs of the examples. \<open>sampleNumStr\<close> is
  \<^verbatim>\<open>String(n)\<close> on a whole number: its decimal digits, with a minus sign below zero.
  \<open>sampleISO\<close> is \<^verbatim>\<open>toISOString\<close> on an instant of the years 0000 to 9999:
  \<^verbatim>\<open>YYYY-MM-DDTHH:mm:ss.sssZ\<close> in UTC, the date computed from the day count of the
  proleptic Gregorian calendar.
\<close>

fun decimal :: "nat \<Rightarrow> string" where
  "decimal n =
     (if n < 10 then [char_of (48 + n)] else decimal (n div 10) @ [char_of (48 + n mod 10)])"

declare decimal.simps [simp del]

definition sampleNumStr :: "real \<Rightarrow> string" where
  "sampleNumStr n = (if n < 0 then ''-'' else []) @ decimal (nat \<lfloor>\<bar>n\<bar>\<rfloor>)"

definition pad :: "nat \<Rightarrow> int \<Rightarrow> string" where
  "pad width n = replicate (width - length (decimal (nat n))) (CHR ''0'') @ decimal (nat n)"

definition civil :: "int \<Rightarrow> int \<times> int \<times> int" where
  "civil days =
     (let z = days + 719468;
          era = z div 146097;
          doe = z mod 146097;
          yoe = (doe - doe div 1460 + doe div 36524 - doe div 146096) div 365;
          doy = doe - (365 * yoe + yoe div 4 - yoe div 100);
          mp = (5 * doy + 2) div 153;
          d = doy - (153 * mp + 2) div 5 + 1;
          m = (if mp < 10 then mp + 3 else mp - 9);
          y = yoe + era * 400 + (if m \<le> 2 then 1 else 0)
      in (y, m, d))"

definition sampleISO :: "int \<Rightarrow> string" where
  "sampleISO t =
     (let ms = t mod 86400000
      in case civil (t div 86400000) of
           (y, m, d) \<Rightarrow>
             pad 4 y @ ''-'' @ pad 2 m @ ''-'' @ pad 2 d @ ''T''
             @ pad 2 (ms div 3600000) @ '':'' @ pad 2 (ms div 60000 mod 60) @ '':''
             @ pad 2 (ms div 1000 mod 60) @ ''.'' @ pad 3 (ms mod 1000) @ ''Z'')"

section \<open>Series of the chart\<close>

text \<open>
  \<^verbatim>\<open>
  const mk = (label, key, color) => {
    const pts = base.map((it) => {
        const d = it.created_at ? new Date(it.created_at) : null;
        const y = scoreOf(it.feedback, key);
        if (!d || typeof y !== "number") return null;
        return { x: d.getTime(), y, t: d.toISOString(), id: it.id };
      }).filter(Boolean);
    const sortedPts = pts.sort((a, b) => a.x - b.x);
    return { key, label, color, points: smooth ? movingAvg(sortedPts, 3) : sortedPts };
  };
  const all = [ mk("Overall", "overall", "#22d3ee"), mk("Opening", "opening", "#60a5fa"),
                mk("Content", "content", "#34d399"), mk("Delivery", "delivery", "#f472b6"),
                mk("Grammar", "grammar", "#f59e0b") ];
  return all.filter(s => visible[s.key] !== false);
  \<close>
  \<open>visible\<close> is the object of the visibility toggles.
\<close>

definition mkPoint :: "(int \<Rightarrow> string) \<Rightarrow> category \<Rightarrow> HistoryItem \<Rightarrow> point option" where
  "mkPoint toISO key it =
     (case created_at it of
        None \<Rightarrow> None
      | Some d \<Rightarrow>
          (case scoreOf (feedback it) key of
             JNum y \<Rightarrow> Some \<lparr>px = d, py = y, pt = toISO d, pid = item_id it\<rparr>
           | _ \<Rightarrow> None))"

definition mk :: "(int \<Rightarrow> string) \<Rightarrow> HistoryItem list \<Rightarrow> bool \<Rightarrow> string \<Rightarrow> category \<Rightarrow> string
    \<Rightarrow> series" where
  "mk toISO flt smooth label key color =
     (let pts = List.map_filter (mkPoint toISO key) flt;
          sortedPts = sort_key px pts
      in \<lparr>skey = keyName key, slabel = label, scolor = color,
          spoints = (if smooth then movingAvg sortedPts 3 else sortedPts)\<rparr>)"

definition allSeries :: "(int \<Rightarrow> string) \<Rightarrow> HistoryItem list \<Rightarrow> bool \<Rightarrow> series list" where
  "allSeries toISO flt smooth =
     [mk toISO flt smooth ''Overall'' Overall ''#22d3ee'',
      mk toISO flt smooth ''Opening'' Opening ''#60a5fa'',
      mk toISO flt smooth ''Content'' Content ''#34d399'',
      mk toISO flt smooth ''Delivery'' Delivery ''#f472b6'',
      mk toISO flt smooth ''Grammar'' Grammar ''#f59e0b'']"

definition basePoints :: "(int \<Rightarrow> string) \<Rightarrow> HistoryItem list \<Rightarrow> bool \<Rightarrow> jsv \<Rightarrow> series list" where
  "basePoints toISO flt smooth visible =
     filter (\<lambda>s. getProp visible (skey s) \<noteq> JBool False) (allSeries toISO flt smooth)"

section \<open>Vocabulary of the specification\<close>

text \<open>
  The inline score of a section is absent or null: the section is no object, or it has
  no field \<^verbatim>\<open>score\<close>, or the field holds \<^verbatim>\<open>null\<close> or \<^verbatim>\<open>undefined\<close>.
\<close>

definition inlineAbsent :: "jsv \<Rightarrow> bool" where
  "inlineAbsent sec =
     (case sec of
        JObj kvs \<Rightarrow> (case map_of kvs ''score'' of
                       None \<Rightarrow> True
                     | Some v \<Rightarrow> v = JNull \<or> v = JUndefined)
      | _ \<Rightarrow> True)"

text \<open>Two sample feedback objects that differ outside the category \<^verbatim>\<open>content\<close>.\<close>

definition fbInline :: jsv where
  "fbInline = JObj [(''content'', JObj [(''summary'', JStr ''ok''), (''score'', JNum 80)]),
                    (''delivery'', JStr ''steady''),
                    (''scores'', JObj [(''content'', JNum 55), (''delivery'', JNum 60)])]"

definition fbOther :: jsv where
  "fbOther = JObj [(''content'', JObj [(''summary'', JStr ''ok''), (''score'', JNum 80)]),
                   (''delivery'', JObj [(''score'', JNum 10)]),
                   (''opening'', JStr ''hello''),
                   (''scores'', JObj [(''content'', JNum 55), (''delivery'', JNum 99)])]"

text \<open>A sample text for the parse step: the object text with white space around it.\<close>

definition sampleText :: string where
  "sampleText = [CHR 0x20, CHR ''{'', CHR 0x22, CHR ''s'', CHR ''c'', CHR ''o'', CHR ''r'', CHR ''e'',
              CHR 0x22, CHR '':'', CHR ''8'', CHR ''0'', CHR ''}'', CHR 0x0A]"

text \<open>Sample points with the scores 60, 70, 80, 90, and a sample visibility object.\<close>

definition samplePoints :: "point list" where
  "samplePoints =
     [\<lparr>px = 1000, py = 60, pt = ''t1'', pid = 1\<rparr>,
      \<lparr>px = 2000, py = 70, pt = ''t2'', pid = 2\<rparr>,
      \<lparr>px = 3000, py = 80, pt = ''t3'', pid = 3\<rparr>,
      \<lparr>px = 4000, py = 90, pt = ''t4'', pid = 4\<rparr>]"

definition sampleVisible :: jsv where
  "sampleVisible = JObj [(''overall'', JBool True), (''opening'', JBool False),
                         (''content'', JUndefined), (''delivery'', JBool True)]"

text \<open>Two sample charts: two series over four time stamps, and one series with one point.\<close>

definition sampleSeries :: "series list" where
  "sampleSeries =
     [\<lparr>skey = ''overall'', slabel = ''Overall'', scolor = ''#22d3ee'', spoints = samplePoints\<rparr>,
      \<lparr>skey = ''opening'', slabel = ''Opening'', scolor = ''#60a5fa'',
       spoints = [\<lparr>px = 1000, py = 40, pt = ''t1'', pid = 1\<rparr>,
                  \<lparr>px = 3000, py = 80, pt = ''t3'', pid = 3\<rparr>]\<rparr>]"

definition singleSeries :: "series list" where
  "singleSeries =
     [\<lparr>skey = ''overall'', slabel = ''Overall'', scolor = ''#22d3ee'',
       spoints = [\<lparr>px = 5000, py = 75, pt = ''t5'', pid = 5\<rparr>]\<rparr>]"

text \<open>
  The order in which the nested loops of the hover handler visit the points, each with
  its series, and the payload handed to \<^verbatim>\<open>onHover\<close> for one of them.
\<close>

definition pointsInOrder :: "series list \<Rightarrow> (series \<times> point) list" where
  "pointsInOrder ser = concat (map (\<lambda>s. map (Pair s) (spoints s)) ser)"

definition payload :: "series \<times> point \<Rightarrow> hover" where
  "payload sp =
     \<lparr>hlabel = slabel (fst sp), hx = px (snd sp), hy = py (snd sp), ht = pt (snd sp),
      hcolor = scolor (fst sp), hid = pid (snd sp)\<rparr>"

text \<open>
  The words of the specification about averages. A resolved score is a number or
  \<^verbatim>\<open>null\<close> (the type \<^verbatim>\<open>number | null\<close> of the page); \<open>scoresTyped\<close> says so of a
  history. The effective set is the range-filtered history, or the whole history when
  the filter leaves nothing; the category average is the mean of the non-null resolved
  scores, rounded to one decimal place, or \<open>None\<close> when there is none.
\<close>

fun isNumOrNull :: "jsv \<Rightarrow> bool" where
  "isNumOrNull (JNum n) = True"
| "isNumOrNull JNull = True"
| "isNumOrNull v = False"

definition scoresTyped :: "HistoryItem list \<Rightarrow> bool" where
  "scoresTyped hist =
     list_all (\<lambda>it. list_all (\<lambda>k. isNumOrNull (scoreOf (feedback it) k)) keys) hist"

fun theNum :: "jsv \<Rightarrow> real" where
  "theNum (JNum n) = n"
| "theNum v = 0"

definition mean :: "real list \<Rightarrow> real" where
  "mean xs = sum_list xs / real (length xs)"



definition resolvedScores :: "HistoryItem list \<Rightarrow> category \<Rightarrow> real list" where
  "resolvedScores eff k =
     map theNum (filter (\<lambda>v. v \<noteq> JNull) (map (\<lambda>it. scoreOf (feedback it) k) eff))"


text \<open>
  Sample histories: one whose only record is 30 days old, and one with records inside
  and outside a window of 7 days, with and without a date, with and without feedback.
\<close>

definition sampleNow :: int where
  "sampleNow = 1741622400000"

definition feedbackWith :: "real \<Rightarrow> real \<Rightarrow> jsv" where
  "feedbackWith dl rest =
     JObj [(''delivery'', JObj [(''score'', JNum dl)]),
           (''scores'', JObj [(''opening'', JNum rest), (''content'', JNum rest),
                              (''grammar'', JNum rest), (''overall'', JNum rest)])]"


definition recentHistory :: "HistoryItem list" where
  "recentHistory =
     [\<lparr>item_id = 1, transcript = None, created_at = Some (sampleNow - 40 * 24 * 3600 * 1000),
       feedback = feedbackWith 10 10\<rparr>,
      \<lparr>item_id = 2, transcript = None, created_at = Some (sampleNow - 3 * 24 * 3600 * 1000),
       feedback = feedbackWith 50 70\<rparr>,
      \<lparr>item_id = 3, transcript = None, created_at = Some (sampleNow - 2 * 24 * 3600 * 1000),
       feedback = feedbackWith 50 75\<rparr>,
      \<lparr>item_id = 4, transcript = None, created_at = None, feedback = feedbackWith 90 90\<rparr>,
      \<lparr>item_id = 5, transcript = None, created_at = Some (sampleNow - 1 * 24 * 3600 * 1000),
       feedback = JUndefined\<rparr>,
      \<lparr>item_id = 6, transcript = None, created_at = Some (sampleNow - 1 * 24 * 3600 * 1000),
       feedback = feedbackWith 90 76\<rparr>]"

text \<open>
  The delta of a category in the words of the specification: the history is split at
  \<open>n div 2\<close>; the delta is the mean of the later half minus the mean of the earlier
  half, and 0 when either half has no resolved score for the category.
\<close>

definition deltaSpec :: "HistoryItem list \<Rightarrow> category \<Rightarrow> real" where
  "deltaSpec hist k =
     (let earlier = take (length hist div 2) hist;
          later = drop (length hist div 2) hist
      in if resolvedScores earlier k = [] \<or> resolvedScores later k = [] then 0
         else mean (resolvedScores later k) - mean (resolvedScores earlier k))"

text \<open>Four sessions: delivery 50, 50, 90, 90 and every other category 70.\<close>

definition fourSessions :: "HistoryItem list" where
  "fourSessions =
     [\<lparr>item_id = 1, transcript = None, created_at = Some 1741000000000, feedback = feedbackWith 50 70\<rparr>,
      \<lparr>item_id = 2, transcript = None, created_at = Some 1741100000000, feedback = feedbackWith 50 70\<rparr>,
      \<lparr>item_id = 3, transcript = None, created_at = Some 1741200000000, feedback = feedbackWith 90 70\<rparr>,
      \<lparr>item_id = 4, transcript = None, created_at = Some 1741300000000, feedback = feedbackWith 90 70\<rparr>]"

text \<open>
  Two sessions for the export: one with a transcript that contains a comma, and one
  without date whose overall score arrives as the text \<^verbatim>\<open>7,5\<close>.
\<close>

definition twoSessions :: "HistoryItem list" where
  "twoSessions =
     [\<lparr>item_id = 1, transcript = Some ''Hello, world'', created_at = Some 1741622400000,
       feedback = feedbackWith 50 72\<rparr>,
      \<lparr>item_id = 2, transcript = Some ''Plain words'', created_at = None,
       feedback = JObj [(''overall'', JObj [(''score'', JStr ''7,5'')])]\<rparr>]"

text \<open>
  The streak in the words of the specification. The calendar day of an instant is
  named by its local midnight \<open>dayStart t\<close>; the day before the day that starts at
  \<open>m\<close> is the day of the instant \<open>m - 1\<close>. Every record with a date marks its day.
  The streak counts the days, from today backward, that are marked, and stops at the
  first day that is not; it cannot exceed the number of dated records, which bounds the
  count.
\<close>

definition recordDays :: "(int \<Rightarrow> int) \<Rightarrow> HistoryItem list \<Rightarrow> int list" where
  "recordDays dayStart hist =
     List.map_filter (\<lambda>it. map_option dayStart (created_at it)) hist"

fun calendarStreak :: "(int \<Rightarrow> int) \<Rightarrow> int list \<Rightarrow> int \<Rightarrow> nat \<Rightarrow> nat" where
  "calendarStreak dayStart days m 0 = 0"
| "calendarStreak dayStart days m (Suc fuel) =
     (if m \<in> set days then Suc (calendarStreak dayStart days (dayStart (m - 1)) fuel) else 0)"

definition streakSpec :: "(int \<Rightarrow> int) \<Rightarrow> int \<Rightarrow> HistoryItem list \<Rightarrow> nat" where
  "streakSpec dayStart now hist =
     calendarStreak dayStart (recordDays dayStart hist) (dayStart now)
       (length (recordDays dayStart hist))"

text \<open>
  Two time zones. \<open>utcDayStart\<close> is the local midnight in a zone without offset, where
  every day has 24 hours. \<open>nyDayStart\<close> is the local midnight in New York for the
  instants around 9 March 2025, the day the clocks went from UTC-5 to UTC-4 at 07:00 UTC
  (\<open>1741503600000\<close>): that day has 23 hours. \<open>nyHistory\<close> has a session on 9 March at
  12:00 and one on 10 March at 09:00 local time, and \<open>nyNow\<close> is 10 March, 12:00 local
  time. \<open>gapHistory\<close> has sessions three days ago, twice yesterday and today, and one
  without date.
\<close>

definition nyDayStart :: "int \<Rightarrow> int" where
  "nyDayStart t =
     (let shift = 1741503600000;
          clock = t - (if t < shift then 5 else 4) * 3600000;
          midnight = clock - clock mod 86400000
      in if shift \<le> midnight + 4 * 3600000 then midnight + 4 * 3600000
         else midnight + 5 * 3600000)"

definition nyNow :: int where
  "nyNow = 1741622400000"

definition nyHistory :: "HistoryItem list" where
  "nyHistory =
     [\<lparr>item_id = 1, transcript = None, created_at = Some 1741536000000, feedback = JUndefined\<rparr>,
      \<lparr>item_id = 2, transcript = None, created_at = Some 1741611600000, feedback = JUndefined\<rparr>]"

definition utcDayStart :: "int \<Rightarrow> int" where
  "utcDayStart t = t - t mod 86400000"

definition gapHistory :: "HistoryItem list" where
  "gapHistory =
     [\<lparr>item_id = 1, transcript = None, created_at = Some (nyNow - 3 * 86400000), feedback = JUndefined\<rparr>,
      \<lparr>item_id = 2, transcript = None, created_at = None, feedback = JUndefined\<rparr>,
      \<lparr>item_id = 3, transcript = None, created_at = Some (nyNow - 86400000 - 7200000), feedback = JUndefined\<rparr>,
      \<lparr>item_id = 4, transcript = None, created_at = Some (nyNow - 86400000), feedback = JUndefined\<rparr>,
      \<lparr>item_id = 5, transcript = None, created_at = Some (nyNow - 3600000), feedback = JUndefined\<rparr>]"

section \<open>Properties of the score resolver\<close>

lemma inlineScore_absent: "inlineAbsent sec \<Longrightarrow> nullish (inlineScore sec) b = b"
  by (cases sec) (auto simp: inlineAbsent_def inlineScore_def nullish_def split: option.splits)

lemma inlineScore_num:
  "sec = JObj kvs \<Longrightarrow> map_of kvs ''score'' = Some (JNum n) \<Longrightarrow> inlineScore sec = JNum n"
  by (simp add: inlineScore_def)

lemma scoreOf_inline:
  "getProp (JObj fs) (keyName key) = JObj kvs \<Longrightarrow> map_of kvs ''score'' = Some (JNum n)
   \<Longrightarrow> scoreOf (JObj fs) key = JNum n"
  by (simp add: scoreOf_def inlineScore_num nullish_def)

lemma scoreOf_block:
  "inlineAbsent (getProp (JObj fs) (keyName key))
   \<Longrightarrow> scoreOf (JObj fs) key = nullish (fromBlock (JObj fs) key) JNull"
  by (simp add: scoreOf_def inlineScore_absent)

lemma scoreOf_absent: "fb = JUndefined \<or> fb = JNull \<Longrightarrow> scoreOf fb key = JNull"
  by (auto simp: scoreOf_def)

lemma scoreOf_cong:
  "getProp (JObj fs') (keyName key) = getProp (JObj fs) (keyName key)
   \<Longrightarrow> fromBlock (JObj fs') key = fromBlock (JObj fs) key
   \<Longrightarrow> scoreOf (JObj fs') key = scoreOf (JObj fs) key"
  by (simp add: scoreOf_def)

text \<open>
  Claim C1. For a feedback object \<open>fb\<close> and a category \<open>key\<close>, \<open>scoreOf\<close> returns the
  inline score when the section is an object whose field \<^verbatim>\<open>score\<close> is a number; when
  the inline score is absent or null it returns the entry \<^verbatim>\<open>fb.scores[key]\<close> of the
  scores block, and \<^verbatim>\<open>null\<close> when that is absent or null too; it returns \<^verbatim>\<open>null\<close>
  when the feedback is absent; and two feedback objects that agree on the section of
  \<open>key\<close> and on the block's entry for \<open>key\<close> resolve to the same score, whatever the
  other four categories hold.
\<close>

theorem scoreOf_resolution:
  "(fb = JObj fs \<and> getProp fb (keyName key) = JObj kvs \<and> map_of kvs ''score'' = Some (JNum n)
      \<longrightarrow> scoreOf fb key = JNum n)
   \<and> (fb = JObj fs \<and> inlineAbsent (getProp fb (keyName key))
      \<longrightarrow> scoreOf fb key =
           (if fromBlock fb key = JUndefined \<or> fromBlock fb key = JNull then JNull
            else fromBlock fb key))
   \<and> (fb = JUndefined \<or> fb = JNull \<longrightarrow> scoreOf fb key = JNull)
   \<and> (fb = JObj fs \<and> fb' = JObj fs'
        \<and> getProp fb' (keyName key) = getProp fb (keyName key)
        \<and> fromBlock fb' key = fromBlock fb key
      \<longrightarrow> scoreOf fb' key = scoreOf fb key)"
proof (intro conjI impI)
  assume "fb = JObj fs \<and> getProp fb (keyName key) = JObj kvs
            \<and> map_of kvs ''score'' = Some (JNum n)"
  then show "scoreOf fb key = JNum n"
    using scoreOf_inline by blast
next
  assume "fb = JObj fs \<and> inlineAbsent (getProp fb (keyName key))"
  then have "scoreOf fb key = nullish (fromBlock fb key) JNull"
    using scoreOf_block by blast
  then show "scoreOf fb key =
           (if fromBlock fb key = JUndefined \<or> fromBlock fb key = JNull then JNull
            else fromBlock fb key)"
    by (auto simp: nullish_def)
next
  assume "fb = JUndefined \<or> fb = JNull"
  then show "scoreOf fb key = JNull"
    by (rule scoreOf_absent)
next
  assume "fb = JObj fs \<and> fb' = JObj fs'
        \<and> getProp fb' (keyName key) = getProp fb (keyName key)
        \<and> fromBlock fb' key = fromBlock fb key"
  then show "scoreOf fb' key = scoreOf fb key"
    using scoreOf_cong by blast
qed

theorem scoreOf_resolution_witness:
  "scoreOf fbInline Content = JNum 80
   \<and> scoreOf fbInline Delivery = JNum 60
   \<and> scoreOf fbInline Opening = JNull
   \<and> scoreOf JUndefined Content = JNull
   \<and> scoreOf fbOther Content = scoreOf fbInline Content"
proof -
  have inl: "scoreOf fbInline Content = JNum 80"
    using scoreOf_resolution [where fb = fbInline and key = Content and n = 80
        and kvs = "[(''summary'', JStr ''ok''), (''score'', JNum 80)]"
        and fs = "[(''content'', JObj [(''summary'', JStr ''ok''), (''score'', JNum 80)]),
                   (''delivery'', JStr ''steady''),
                   (''scores'', JObj [(''content'', JNum 55), (''delivery'', JNum 60)])]"]
    by (simp add: fbInline_def)
  have blk: "scoreOf fbInline Delivery = JNum 60"
    using scoreOf_resolution [where fb = fbInline and key = Delivery
        and fs = "[(''content'', JObj [(''summary'', JStr ''ok''), (''score'', JNum 80)]),
                   (''delivery'', JStr ''steady''),
                   (''scores'', JObj [(''content'', JNum 55), (''delivery'', JNum 60)])]"]
    by (simp add: fbInline_def inlineAbsent_def fromBlock_def optProp_def)
  have nul: "scoreOf fbInline Opening = JNull"
    using scoreOf_resolution [where fb = fbInline and key = Opening
        and fs = "[(''content'', JObj [(''summary'', JStr ''ok''), (''score'', JNum 80)]),
                   (''delivery'', JStr ''steady''),
                   (''scores'', JObj [(''content'', JNum 55), (''delivery'', JNum 60)])]"]
    by (simp add: fbInline_def inlineAbsent_def fromBlock_def optProp_def)
  have abs: "scoreOf JUndefined Content = JNull"
    using scoreOf_resolution [where fb = JUndefined and key = Content]
    by simp
  have ind: "scoreOf fbOther Content = scoreOf fbInline Content"
    using scoreOf_resolution [where fb = fbInline and fb' = fbOther and key = Content
        and fs = "[(''content'', JObj [(''summary'', JStr ''ok''), (''score'', JNum 80)]),
                   (''delivery'', JStr ''steady''),
                   (''scores'', JObj [(''content'', JNum 55), (''delivery'', JNum 60)])]"
        and fs' = "[(''content'', JObj [(''summary'', JStr ''ok''), (''score'', JNum 80)]),
                   (''delivery'', JObj [(''score'', JNum 10)]),
                   (''opening'', JStr ''hello''),
                   (''scores'', JObj [(''content'', JNum 55), (''delivery'', JNum 99)])]"]
    by (simp add: fbInline_def fbOther_def fromBlock_def optProp_def)
  show ?thesis
    using inl blk nul abs ind by simp
qed

section \<open>Properties of the normalizer's parse step\<close>

lemma startsWith_char: "startsWith s [c] \<longleftrightarrow> s \<noteq> [] \<and> hd s = c"
  by (cases s) (auto simp: startsWith_def)

lemma endsWith_char: "endsWith s [c] \<longleftrightarrow> s \<noteq> [] \<and> last s = c"
proof (cases s rule: rev_cases)
  case Nil
  then show ?thesis by (simp add: endsWith_def)
next
  case (snoc ys y)
  then show ?thesis by (auto simp: endsWith_def)
qed

lemma looksJSON_iff:
  "looksJSON s \<longleftrightarrow>
     s \<noteq> [] \<and> ((hd s = CHR ''{'' \<and> last s = CHR ''}'') \<or> (hd s = CHR ''['' \<and> last s = CHR '']''))"
  by (auto simp: looksJSON_def startsWith_char endsWith_char)

lemma parseMaybeJSON_returns: "\<exists>r. parseMaybeJSON trim jsonParse v = Inr r"
  by (cases v) (auto simp: parseMaybeJSON_def Let_def split: sum.splits)

lemma parseMaybeJSON_string:
  "parseMaybeJSON trim jsonParse (JStr str) =
     (if looksJSON (trim str)
      then (case jsonParse (trim str) of Inr parsed \<Rightarrow> Inr parsed | Inl e \<Rightarrow> Inr (JStr str))
      else Inr (JStr str))"
  by (simp add: parseMaybeJSON_def Let_def)

lemma parseMaybeJSON_other: "(\<forall>str. v \<noteq> JStr str) \<Longrightarrow> parseMaybeJSON trim jsonParse v = Inr v"
  by (cases v) (auto simp: parseMaybeJSON_def)

text \<open>
  Claim C6. \<open>parseMaybeJSON\<close> never throws: it returns a value for every input and every
  behaviour of \<^verbatim>\<open>JSON.parse\<close> and of \<^verbatim>\<open>trim\<close>. It returns the parsed structure exactly when the input
  is a string whose trimmed form starts with \<^verbatim>\<open>{\<close> and ends with \<^verbatim>\<open>}\<close>, or starts with
  \<^verbatim>\<open>[\<close> and ends with \<^verbatim>\<open>]\<close>, and \<^verbatim>\<open>JSON.parse\<close> accepts the trimmed form; when
  \<^verbatim>\<open>JSON.parse\<close> throws, the original string comes back unchanged; a string that does not
  look like JSON and every value that is no string pass through unchanged.
\<close>

theorem parseMaybeJSON_never_throws:
  "(\<exists>r. parseMaybeJSON trim jsonParse v = Inr r)
   \<and> (v = JStr str \<and> looksJSON (trim str) \<and> jsonParse (trim str) = Inr parsed
        \<longrightarrow> parseMaybeJSON trim jsonParse v = Inr parsed)
   \<and> (v = JStr str \<and> looksJSON (trim str) \<and> jsonParse (trim str) = Inl e
        \<longrightarrow> parseMaybeJSON trim jsonParse v = Inr v)
   \<and> (v = JStr str \<and> \<not> looksJSON (trim str) \<longrightarrow> parseMaybeJSON trim jsonParse v = Inr v)
   \<and> ((\<forall>s. v \<noteq> JStr s) \<longrightarrow> parseMaybeJSON trim jsonParse v = Inr v)
   \<and> (looksJSON (trim str) \<longleftrightarrow>
        trim str \<noteq> [] \<and> ((hd (trim str) = CHR ''{'' \<and> last (trim str) = CHR ''}'')
                           \<or> (hd (trim str) = CHR ''['' \<and> last (trim str) = CHR '']'')))"
proof (intro conjI impI)
  show "\<exists>r. parseMaybeJSON trim jsonParse v = Inr r"
    by (rule parseMaybeJSON_returns)
next
  assume "v = JStr str \<and> looksJSON (trim str) \<and> jsonParse (trim str) = Inr parsed"
  then show "parseMaybeJSON trim jsonParse v = Inr parsed"
    by (simp add: parseMaybeJSON_string)
next
  assume "v = JStr str \<and> looksJSON (trim str) \<and> jsonParse (trim str) = Inl e"
  then show "parseMaybeJSON trim jsonParse v = Inr v"
    by (simp add: parseMaybeJSON_string)
next
  assume "v = JStr str \<and> \<not> looksJSON (trim str)"
  then show "parseMaybeJSON trim jsonParse v = Inr v"
    by (simp add: parseMaybeJSON_string)
next
  assume "\<forall>s. v \<noteq> JStr s"
  then show "parseMaybeJSON trim jsonParse v = Inr v"
    by (rule parseMaybeJSON_other)
next
  show "looksJSON (trim str) \<longleftrightarrow>
        trim str \<noteq> [] \<and> ((hd (trim str) = CHR ''{'' \<and> last (trim str) = CHR ''}'')
                           \<or> (hd (trim str) = CHR ''['' \<and> last (trim str) = CHR '']''))"
    by (rule looksJSON_iff)
qed

lemma trim_sample: "sampleTrim sampleText = [CHR ''{'', CHR 0x22, CHR ''s'', CHR ''c'', CHR ''o'', CHR ''r'', CHR ''e'',
              CHR 0x22, CHR '':'', CHR ''8'', CHR ''0'', CHR ''}'']"
  by (simp add: sampleTrim_def sampleText_def isWhite_def)

theorem parseMaybeJSON_never_throws_witness:
  "parseMaybeJSON sampleTrim sampleParse (JStr sampleText) = Inr (JObj [(''score'', JNum 80)])
   \<and> parseMaybeJSON sampleTrim sampleParse (JStr ''{broken}'') = Inr (JStr ''{broken}'')
   \<and> parseMaybeJSON sampleTrim sampleParse (JStr ''not json {broken'') = Inr (JStr ''not json {broken'')
   \<and> parseMaybeJSON sampleTrim sampleParse (JNum 7) = Inr (JNum 7)
   \<and> parseMaybeJSON sampleTrim sampleParse (JStr (CHR 0xA0 # ''[]'')) = Inr (JArr [])"
proof -
  have a: "parseMaybeJSON sampleTrim sampleParse (JStr sampleText) = Inr (JObj [(''score'', JNum 80)])"
    using parseMaybeJSON_never_throws [where trim = sampleTrim and jsonParse = sampleParse and v = "JStr sampleText"
        and str = sampleText and parsed = "JObj [(''score'', JNum 80)]"]
    by (simp add: trim_sample looksJSON_def startsWith_def endsWith_def sampleParse_def)
  have b: "parseMaybeJSON sampleTrim sampleParse (JStr ''{broken}'') = Inr (JStr ''{broken}'')"
    using parseMaybeJSON_never_throws [where trim = sampleTrim and jsonParse = sampleParse and v = "JStr ''{broken}''"
        and str = "''{broken}''" and e = SyntaxError]
    by (simp add: sampleTrim_def isWhite_def looksJSON_def startsWith_def endsWith_def sampleParse_def)
  have c: "parseMaybeJSON sampleTrim sampleParse (JStr ''not json {broken'') = Inr (JStr ''not json {broken'')"
    using parseMaybeJSON_never_throws [where trim = sampleTrim and jsonParse = sampleParse
        and v = "JStr ''not json {broken''" and str = "''not json {broken''"]
    by (simp add: sampleTrim_def isWhite_def looksJSON_def startsWith_def endsWith_def)
  have d: "parseMaybeJSON sampleTrim sampleParse (JNum 7) = Inr (JNum 7)"
    using parseMaybeJSON_never_throws [where trim = sampleTrim and jsonParse = sampleParse and v = "JNum 7"]
    by simp
  have e: "parseMaybeJSON sampleTrim sampleParse (JStr (CHR 0xA0 # ''[]'')) = Inr (JArr [])"
    using parseMaybeJSON_never_throws [where trim = sampleTrim and jsonParse = sampleParse
        and v = "JStr (CHR 0xA0 # ''[]'')" and str = "CHR 0xA0 # ''[]''" and parsed = "JArr []"]
    by (simp add: sampleTrim_def isWhite_def looksJSON_def startsWith_def endsWith_def
          sampleParse_def)
  show ?thesis
    using a b c d e by simp
qed

section \<open>Properties of the moving average\<close>

lemma foldl_py: "foldl (\<lambda>a p. a + py p) a ps = a + sum_list (map py ps)"
  by (induction ps arbitrary: a) auto

lemma slice_nth: "b \<le> length xs \<Longrightarrow> slice xs a b = map (\<lambda>j. xs ! j) [a..<b]"
proof (rule nth_equalityI)
  assume le: "b \<le> length xs"
  show "length (slice xs a b) = length (map (\<lambda>j. xs ! j) [a..<b])"
    using le by (simp add: slice_def)
  fix i
  assume "i < length (slice xs a b)"
  then have i: "a + i < b"
    using le by (simp add: slice_def)
  then show "slice xs a b ! i = map (\<lambda>j. xs ! j) [a..<b] ! i"
    using le by (simp add: slice_def)
qed

lemma movingAvgAt_fields:
  "px (movingAvgAt ps k i) = px (ps ! i) \<and> pt (movingAvgAt ps k i) = pt (ps ! i)
   \<and> pid (movingAvgAt ps k i) = pid (ps ! i)"
  by (simp add: movingAvgAt_def Let_def)

lemma movingAvgAt_py:
  assumes "i < length ps"
  shows "py (movingAvgAt ps 3 i) = (\<Sum>j = i - 2..i. py (ps ! j)) / real (card {i - 2..i})"
proof -
  have fr: "nat (max 0 (int i - (3 - 1))) = i - 2"
    by simp
  have sl: "slice ps (i - 2) (i + 1) = map (\<lambda>j. ps ! j) [i - 2..<i + 1]"
    using assms by (intro slice_nth) simp
  have s: "sum_list (map py (map (\<lambda>j. ps ! j) [i - 2..<i + 1])) = (\<Sum>j = i - 2..i. py (ps ! j))"
  proof -
    have "sum_list (map py (map (\<lambda>j. ps ! j) [i - 2..<i + 1]))
            = sum_list (map (\<lambda>j. py (ps ! j)) [i - 2..<Suc i])"
      by (simp add: comp_def del: upt_Suc)
    also have "\<dots> = (\<Sum>j \<in> set [i - 2..<Suc i]. py (ps ! j))"
      by (rule interv_sum_list_conv_sum_set_nat)
    also have "set [i - 2..<Suc i] = {i - 2..i}"
      by auto
    finally show ?thesis .
  qed
  have l: "length (map (\<lambda>j. ps ! j) [i - 2..<i + 1]) = card {i - 2..i}"
    by simp
  show ?thesis
    unfolding movingAvgAt_def Let_def fr sl foldl_py s l by simp
qed

lemma movingAvg_length: "length (movingAvg ps k) = length ps"
  by (simp add: movingAvg_def)

lemma movingAvg_nth: "i < length ps \<Longrightarrow> movingAvg ps 3 ! i = movingAvgAt ps 3 i"
  by (simp add: movingAvg_def)

lemma movingAvg_sample: "map py (movingAvg samplePoints 3) = [60, 65, 70, 80]"
  by (simp add: movingAvg_def samplePoints_def movingAvgAt_def slice_def)

text \<open>
  Claim C5. With window 3, \<open>movingAvg\<close> keeps the number of points and replaces the
  \<^verbatim>\<open>y\<close> of the point at index \<open>i\<close> by the mean of the \<^verbatim>\<open>y\<close> values at the indices
  \<open>i - 2, \<dots>, i\<close> that exist (the subtraction on \<open>nat\<close> stops at 0, so the window
  is \<open>{0}\<close> at index 0 and \<open>{0, 1}\<close> at index 1: it narrows at the start, nothing is
  padded); \<^verbatim>\<open>x\<close>, \<^verbatim>\<open>t\<close> and \<^verbatim>\<open>id\<close> of every point are unchanged; and the scores
  60, 70, 80, 90 smooth to 60, 65, 70, 80.
\<close>

theorem movingAvg_window3:
  "length (movingAvg ps 3) = length ps
   \<and> (\<forall>i < length ps.
         py (movingAvg ps 3 ! i) = (\<Sum>j = i - 2..i. py (ps ! j)) / real (card {i - 2..i})
         \<and> px (movingAvg ps 3 ! i) = px (ps ! i)
         \<and> pt (movingAvg ps 3 ! i) = pt (ps ! i)
         \<and> pid (movingAvg ps 3 ! i) = pid (ps ! i))
   \<and> map py (movingAvg samplePoints 3) = [60, 65, 70, 80]"
  by (simp add: movingAvg_length movingAvg_nth movingAvgAt_fields movingAvgAt_py movingAvg_sample
        del: card_atLeastAtMost)


theorem movingAvg_window3_witness:
  "(3::nat) < length samplePoints
   \<and> py (movingAvg samplePoints 3 ! 3) = 80
   \<and> px (movingAvg samplePoints 3 ! 3) = 4000
   \<and> pt (movingAvg samplePoints 3 ! 3) = ''t4''
   \<and> pid (movingAvg samplePoints 3 ! 3) = 4"
proof -
  have len: "(3::nat) < length samplePoints"
    by (simp add: samplePoints_def)
  have st: "{(3::nat) - 2..3} = {1, 2, 3}"
    by auto
  have sm: "(\<Sum>j = (3::nat) - 2..3. py (samplePoints ! j)) / real (card {(3::nat) - 2..3}) = 80"
    unfolding st by (simp add: samplePoints_def)
  have at: "samplePoints ! 3 = \<lparr>px = 4000, py = 90, pt = ''t4'', pid = 4\<rparr>"
    by (simp add: samplePoints_def)
  have "py (movingAvg samplePoints 3 ! 3)
          = (\<Sum>j = (3::nat) - 2..3. py (samplePoints ! j)) / real (card {(3::nat) - 2..3})
        \<and> px (movingAvg samplePoints 3 ! 3) = px (samplePoints ! 3)
        \<and> pt (movingAvg samplePoints 3 ! 3) = pt (samplePoints ! 3)
        \<and> pid (movingAvg samplePoints 3 ! 3) = pid (samplePoints ! 3)"
    using movingAvg_window3 [of samplePoints] len by blast
  then show ?thesis
    using len sm at by simp
qed

section \<open>Properties of the series builder\<close>

lemma allSeries_keys:
  "map skey (allSeries toISO flt smooth) = map keyName [Overall, Opening, Content, Delivery, Grammar]"
  by (simp add: allSeries_def mk_def Let_def)

lemma keyName_in_allSeries: "keyName k \<in> skey ` set (allSeries toISO flt smooth)"
proof -
  have "keyName k \<in> set (map skey (allSeries toISO flt smooth))"
    unfolding allSeries_keys by (cases k) simp_all
  then show ?thesis by simp
qed

lemma basePoints_member:
  "(\<exists>s \<in> set (basePoints toISO flt smooth visible). skey s = keyName k)
     \<longleftrightarrow> getProp visible (keyName k) \<noteq> JBool False"
proof
  assume "\<exists>s \<in> set (basePoints toISO flt smooth visible). skey s = keyName k"
  then show "getProp visible (keyName k) \<noteq> JBool False"
    by (auto simp: basePoints_def)
next
  assume v: "getProp visible (keyName k) \<noteq> JBool False"
  obtain s where "s \<in> set (allSeries toISO flt smooth)" "skey s = keyName k"
    using keyName_in_allSeries [of k toISO flt smooth] by auto
  then show "\<exists>s \<in> set (basePoints toISO flt smooth visible). skey s = keyName k"
    using v by (auto simp: basePoints_def)
qed

text \<open>
  Claim C10. The series of a category is in the set \<open>basePoints\<close> returns if and only
  if the visibility object does not bind the category's key to exactly \<^verbatim>\<open>false\<close>: a key
  that is absent, or bound to \<^verbatim>\<open>undefined\<close>, counts as visible and its series is
  included; a key bound to \<^verbatim>\<open>false\<close> has its series left out.
\<close>

theorem basePoints_visibility:
  "((\<exists>s \<in> set (basePoints toISO flt smooth visible). skey s = keyName k)
      \<longleftrightarrow> getProp visible (keyName k) \<noteq> JBool False)
   \<and> (visible = JObj vs
        \<and> (map_of vs (keyName k) = None \<or> map_of vs (keyName k) = Some JUndefined)
        \<longrightarrow> (\<exists>s \<in> set (basePoints toISO flt smooth visible). skey s = keyName k))
   \<and> (visible = JObj vs \<and> map_of vs (keyName k) = Some (JBool False)
        \<longrightarrow> \<not> (\<exists>s \<in> set (basePoints toISO flt smooth visible). skey s = keyName k))
   \<and> basePoints toISO flt smooth visible
        = filter (\<lambda>s. getProp visible (skey s) \<noteq> JBool False) (allSeries toISO flt smooth)
   \<and> map skey (allSeries toISO flt smooth)
        = [''overall'', ''opening'', ''content'', ''delivery'', ''grammar'']"
proof (intro conjI impI)
  show "(\<exists>s \<in> set (basePoints toISO flt smooth visible). skey s = keyName k)
      \<longleftrightarrow> getProp visible (keyName k) \<noteq> JBool False"
    by (rule basePoints_member)
next
  assume "visible = JObj vs
        \<and> (map_of vs (keyName k) = None \<or> map_of vs (keyName k) = Some JUndefined)"
  then have "getProp visible (keyName k) \<noteq> JBool False"
    by auto
  then show "\<exists>s \<in> set (basePoints toISO flt smooth visible). skey s = keyName k"
    using basePoints_member [of toISO flt smooth visible k] by blast
next
  assume "visible = JObj vs \<and> map_of vs (keyName k) = Some (JBool False)"
  then have "getProp visible (keyName k) = JBool False"
    by auto
  then show "\<not> (\<exists>s \<in> set (basePoints toISO flt smooth visible). skey s = keyName k)"
    using basePoints_member [of toISO flt smooth visible k] by blast
next
  show "basePoints toISO flt smooth visible
        = filter (\<lambda>s. getProp visible (skey s) \<noteq> JBool False) (allSeries toISO flt smooth)"
    by (simp add: basePoints_def)
next
  show "map skey (allSeries toISO flt smooth)
        = [''overall'', ''opening'', ''content'', ''delivery'', ''grammar'']"
    by (simp add: allSeries_keys)
qed

theorem basePoints_visibility_witness:
  "map skey (basePoints sampleISO [] True sampleVisible)
     = [''overall'', ''content'', ''delivery'', ''grammar'']
   \<and> (\<exists>s \<in> set (basePoints sampleISO [] True sampleVisible). skey s = keyName Grammar)
   \<and> (\<exists>s \<in> set (basePoints sampleISO [] True sampleVisible). skey s = keyName Content)
   \<and> \<not> (\<exists>s \<in> set (basePoints sampleISO [] True sampleVisible). skey s = keyName Opening)"
proof -
  have l: "map skey (basePoints sampleISO [] True sampleVisible)
     = [''overall'', ''content'', ''delivery'', ''grammar'']"
    by (simp add: basePoints_def allSeries_def mk_def sampleVisible_def)
  have vis: "sampleVisible = JObj [(''overall'', JBool True), (''opening'', JBool False),
                                   (''content'', JUndefined), (''delivery'', JBool True)]"
    by (simp add: sampleVisible_def)
  have hg: "map_of [(''overall'', JBool True), (''opening'', JBool False),
                    (''content'', JUndefined), (''delivery'', JBool True)] (keyName Grammar) = None"
    by simp
  have hc: "map_of [(''overall'', JBool True), (''opening'', JBool False),
                    (''content'', JUndefined), (''delivery'', JBool True)] (keyName Content)
              = Some JUndefined"
    by simp
  have ho: "map_of [(''overall'', JBool True), (''opening'', JBool False),
                    (''content'', JUndefined), (''delivery'', JBool True)] (keyName Opening)
              = Some (JBool False)"
    by simp
  have g: "\<exists>s \<in> set (basePoints sampleISO [] True sampleVisible). skey s = keyName Grammar"
    using basePoints_visibility [where visible = sampleVisible and k = Grammar
        and toISO = sampleISO and flt = "[]" and smooth = True] vis hg
    by blast
  have c: "\<exists>s \<in> set (basePoints sampleISO [] True sampleVisible). skey s = keyName Content"
    using basePoints_visibility [where visible = sampleVisible and k = Content
        and toISO = sampleISO and flt = "[]" and smooth = True] vis hc
    by blast
  have o: "\<not> (\<exists>s \<in> set (basePoints sampleISO [] True sampleVisible). skey s = keyName Opening)"
    using basePoints_visibility [where visible = sampleVisible and k = Opening
        and toISO = sampleISO and flt = "[]" and smooth = True] vis ho
    by blast
  show ?thesis
    using l g c o by blast
qed

section \<open>Properties of the chart scales\<close>

lemma mathMin_Min: "xs \<noteq> [] \<Longrightarrow> mathMin xs = Min (set xs)"
proof (cases xs)
  case Nil
  assume "xs \<noteq> []"
  with Nil show ?thesis by simp
next
  case (Cons a as)
  have "mathMin (a # as) = Min (set (a # as))"
    by (simp only: mathMin.simps Min.set_eq_fold)
  with Cons show ?thesis by simp
qed

lemma mathMax_Max: "xs \<noteq> [] \<Longrightarrow> mathMax xs = Max (set xs)"
proof (cases xs)
  case Nil
  assume "xs \<noteq> []"
  with Nil show ?thesis by simp
next
  case (Cons a as)
  have "mathMax (a # as) = Max (set (a # as))"
    by (simp only: mathMax.simps Max.set_eq_fold)
  with Cons show ?thesis by simp
qed

lemma minX_Min: "allPoints ser \<noteq> [] \<Longrightarrow> minX ser = Min (px ` set (allPoints ser))"
  by (simp add: minX_def mathMin_Min)

lemma maxX_Max: "allPoints ser \<noteq> [] \<Longrightarrow> maxX ser = Max (px ` set (allPoints ser))"
  by (simp add: maxX_def mathMax_Max)

lemma minX_le: "p \<in> set (allPoints ser) \<Longrightarrow> minX ser \<le> px p"
proof -
  assume p: "p \<in> set (allPoints ser)"
  then have "allPoints ser \<noteq> []" by auto
  then show ?thesis using p by (simp add: minX_Min)
qed

lemma maxX_ge: "p \<in> set (allPoints ser) \<Longrightarrow> px p \<le> maxX ser"
proof -
  assume p: "p \<in> set (allPoints ser)"
  then have "allPoints ser \<noteq> []" by auto
  then show ?thesis using p by (simp add: maxX_Max)
qed

lemma xDenom_pos: "1 \<le> xDenom ser"
  by (simp add: xDenom_def)

lemma xDenom_distinct: "minX ser < maxX ser \<Longrightarrow> xDenom ser = real_of_int (maxX ser - minX ser)"
  by (simp add: xDenom_def max_def)

lemma xDenom_single: "maxX ser = minX ser \<Longrightarrow> xDenom ser = 1"
  by (simp add: xDenom_def)

lemma xScale_ends:
  assumes "minX ser < maxX ser"
  shows "xScale c ser (real_of_int (minX ser)) = padding c"
    and "xScale c ser (real_of_int (maxX ser)) = w - padding c"
    and "xScale c ser x = padding c + (x - real_of_int (minX ser))
            * ((w - padding c * 2) / real_of_int (maxX ser - minX ser))"
  using assms by (simp_all add: xScale_def xDenom_distinct)

lemma xScale_range:
  assumes p: "p \<in> set (allPoints ser)" and wide: "padding c * 2 \<le> w"
  shows "padding c \<le> xScale c ser (real_of_int (px p))"
    and "xScale c ser (real_of_int (px p)) \<le> w - padding c"
proof -
  let ?r = "(real_of_int (px p) - real_of_int (minX ser)) / xDenom ser"
  have d: "0 < xDenom ser" using xDenom_pos [of ser] by linarith
  have lo: "minX ser \<le> px p" and hi: "px p \<le> maxX ser"
    using p by (simp_all add: minX_le maxX_ge)
  have r0: "0 \<le> ?r" using lo d by simp
  have "real_of_int (px p) - real_of_int (minX ser) \<le> real_of_int (maxX ser - minX ser)"
    using hi by simp
  also have "\<dots> \<le> xDenom ser" by (simp add: xDenom_def)
  finally have r1: "?r \<le> 1" using d by simp
  have k: "0 \<le> w - padding c * 2" using wide by simp
  have "0 \<le> ?r * (w - padding c * 2)" using r0 k by (rule mult_nonneg_nonneg)
  then show "padding c \<le> xScale c ser (real_of_int (px p))"
    unfolding xScale_def by linarith
  have "?r * (w - padding c * 2) \<le> 1 * (w - padding c * 2)"
    using r1 k by (rule mult_right_mono)
  then have "?r * (w - padding c * 2) \<le> w - padding c * 2"
    by (simp only: mult_1)
  then show "xScale c ser (real_of_int (px p)) \<le> w - padding c"
    unfolding xScale_def by linarith
qed

text \<open>
  Claim C9. The denominator of the horizontal scale is at least 1, so the projection
  divides by a non-zero number for every input \<open>x\<close>. For a non-empty point set
  \<open>minX\<close> and \<open>maxX\<close> are the least and the greatest time stamp; when they differ the
  scale is the affine map that sends \<open>minX\<close> to \<open>padding\<close> and \<open>maxX\<close> to
  \<open>w - padding\<close>, and every point lands in \<open>[padding, w - padding]\<close>; when all points
  share one time stamp the denominator is 1.
\<close>

theorem xScale_linear_defined:
  "1 \<le> xDenom ser
   \<and> xDenom ser \<noteq> 0
   \<and> xScale c ser x = padding c + ((x - real_of_int (minX ser)) / xDenom ser) * (w - padding c * 2)
   \<and> (allPoints ser \<noteq> [] \<longrightarrow>
         minX ser = Min (px ` set (allPoints ser)) \<and> maxX ser = Max (px ` set (allPoints ser)))
   \<and> (minX ser < maxX ser \<longrightarrow>
         xScale c ser (real_of_int (minX ser)) = padding c
         \<and> xScale c ser (real_of_int (maxX ser)) = w - padding c
         \<and> xScale c ser x = padding c + (x - real_of_int (minX ser))
              * ((w - padding c * 2) / real_of_int (maxX ser - minX ser)))
   \<and> (maxX ser = minX ser \<longrightarrow>
         xDenom ser = 1
         \<and> xScale c ser x = padding c + (x - real_of_int (minX ser)) * (w - padding c * 2))
   \<and> (padding c * 2 \<le> w \<longrightarrow>
         (\<forall>p \<in> set (allPoints ser).
            padding c \<le> xScale c ser (real_of_int (px p))
            \<and> xScale c ser (real_of_int (px p)) \<le> w - padding c))"
proof (intro conjI impI ballI)
  show "1 \<le> xDenom ser" by (rule xDenom_pos)
  then show "xDenom ser \<noteq> 0" by simp
  show "xScale c ser x = padding c + ((x - real_of_int (minX ser)) / xDenom ser) * (w - padding c * 2)"
    by (simp add: xScale_def)
next
  assume "allPoints ser \<noteq> []"
  then show "minX ser = Min (px ` set (allPoints ser))" "maxX ser = Max (px ` set (allPoints ser))"
    by (simp_all add: minX_Min maxX_Max)
next
  assume lt: "minX ser < maxX ser"
  show "xScale c ser (real_of_int (minX ser)) = padding c"
    using lt by (rule xScale_ends)
  show "xScale c ser (real_of_int (maxX ser)) = w - padding c"
    using lt by (rule xScale_ends)
  show "xScale c ser x = padding c + (x - real_of_int (minX ser))
              * ((w - padding c * 2) / real_of_int (maxX ser - minX ser))"
    using lt by (rule xScale_ends)
next
  assume eq: "maxX ser = minX ser"
  then show "xDenom ser = 1" by (rule xDenom_single)
  then show "xScale c ser x = padding c + (x - real_of_int (minX ser)) * (w - padding c * 2)"
    by (simp add: xScale_def)
next
  fix p
  assume "padding c * 2 \<le> w" "p \<in> set (allPoints ser)"
  then show "padding c \<le> xScale c ser (real_of_int (px p))"
    "xScale c ser (real_of_int (px p)) \<le> w - padding c"
    by (simp_all add: xScale_range)
qed

lemma sample_minmax: "minX sampleSeries = 1000 \<and> maxX sampleSeries = 4000"
  by (simp add: minX_def maxX_def allPoints_def sampleSeries_def samplePoints_def)

lemma single_minmax: "minX singleSeries = 5000 \<and> maxX singleSeries = 5000"
  by (simp add: minX_def maxX_def allPoints_def singleSeries_def)

theorem xScale_linear_defined_witness:
  "allPoints sampleSeries \<noteq> []
   \<and> minX sampleSeries < maxX sampleSeries
   \<and> xScale defaultChart sampleSeries 1000 = 36
   \<and> xScale defaultChart sampleSeries 4000 = 864
   \<and> xScale defaultChart sampleSeries 2500 = 450
   \<and> maxX singleSeries = minX singleSeries
   \<and> xDenom singleSeries = 1
   \<and> xScale defaultChart singleSeries 5000 = 36
   \<and> padding defaultChart * 2 \<le> w"
proof -
  have ne: "allPoints sampleSeries \<noteq> []"
    by (simp add: allPoints_def sampleSeries_def samplePoints_def)
  have lt: "minX sampleSeries < maxX sampleSeries"
    by (simp add: sample_minmax)
  have eq: "maxX singleSeries = minX singleSeries"
    by (simp add: single_minmax)
  have pw: "padding defaultChart * 2 \<le> w"
    by (simp add: defaultChart_def w_def)
  have a: "xScale defaultChart sampleSeries (real_of_int (minX sampleSeries)) = padding defaultChart
           \<and> xScale defaultChart sampleSeries (real_of_int (maxX sampleSeries)) = w - padding defaultChart
           \<and> xScale defaultChart sampleSeries 2500 = padding defaultChart + (2500 - real_of_int (minX sampleSeries))
              * ((w - padding defaultChart * 2) / real_of_int (maxX sampleSeries - minX sampleSeries))"
    using xScale_linear_defined [of sampleSeries defaultChart 2500] lt by blast
  have b: "xDenom singleSeries = 1
         \<and> xScale defaultChart singleSeries 5000
             = padding defaultChart + (5000 - real_of_int (minX singleSeries)) * (w - padding defaultChart * 2)"
    using xScale_linear_defined [of singleSeries defaultChart 5000] eq by blast
  show ?thesis
    using ne lt eq pw a b by (simp add: sample_minmax single_minmax defaultChart_def w_def)
qed

section \<open>Properties of hover resolution\<close>

lemma fold_points_flat:
  "fold (\<lambda>s b. fold (nearer c S mx my s) (spoints s) b) ser b0
     = fold (\<lambda>sp. nearer c S mx my (fst sp) (snd sp)) (pointsInOrder ser) b0"
proof (induction ser arbitrary: b0)
  case Nil
  then show ?case by (simp add: pointsInOrder_def)
next
  case (Cons s ser)
  have one: "fold (\<lambda>sp. nearer c S mx my (fst sp) (snd sp)) (map (Pair s) ps) b
               = fold (nearer c S mx my s) ps b" for ps b
    by (induction ps arbitrary: b) simp_all
  have "pointsInOrder (s # ser) = map (Pair s) (spoints s) @ pointsInOrder ser"
    by (simp add: pointsInOrder_def)
  then show ?case
    using Cons.IH by (simp add: one)
qed

lemma nearer_None:
  "nearer c S mx my s p None = Some (candidate s p (distOf c S mx my p))"
  by (simp add: nearer_def Let_def)

lemma nearer_Some:
  "nearer c S mx my s p (Some (candidate s' p' d'))
     = (if distOf c S mx my p < d' then Some (candidate s p (distOf c S mx my p))
        else Some (candidate s' p' d'))"
  by (simp add: nearer_def Let_def candidate_def)

lemma fold_nearer_first_min:
  assumes "xs \<noteq> []"
  shows "\<exists>i < length xs.
           fold (\<lambda>sp. nearer c S mx my (fst sp) (snd sp)) xs None
             = Some (candidate (fst (xs ! i)) (snd (xs ! i)) (distOf c S mx my (snd (xs ! i))))
           \<and> (\<forall>j < length xs. distOf c S mx my (snd (xs ! i)) \<le> distOf c S mx my (snd (xs ! j)))
           \<and> (\<forall>j < i. distOf c S mx my (snd (xs ! i)) < distOf c S mx my (snd (xs ! j)))"
  using assms
proof (induction xs rule: rev_induct)
  case Nil
  then show ?case by simp
next
  case (snoc x ys)
  let ?D = "\<lambda>sp. distOf c S mx my (snd sp)"
  let ?C = "\<lambda>sp. candidate (fst sp) (snd sp) (?D sp)"
  let ?F = "\<lambda>zs. fold (\<lambda>sp. nearer c S mx my (fst sp) (snd sp)) zs None"
  show ?case
  proof (cases "ys = []")
    case True
    then have "?F (ys @ [x]) = Some (?C ((ys @ [x]) ! 0))"
      by (simp add: nearer_None)
    then show ?thesis using True by auto
  next
    case False
    then obtain i where i: "i < length ys" and fi: "?F ys = Some (?C (ys ! i))"
      and mn: "\<forall>j < length ys. ?D (ys ! i) \<le> ?D (ys ! j)"
      and fs: "\<forall>j < i. ?D (ys ! i) < ?D (ys ! j)"
      using snoc.IH by blast
    have step: "?F (ys @ [x]) = (if ?D x < ?D (ys ! i) then Some (?C x) else Some (?C (ys ! i)))"
      by (simp add: fi nearer_Some)
    show ?thesis
    proof (cases "?D x < ?D (ys ! i)")
      case True
      have a: "?F (ys @ [x]) = Some (?C ((ys @ [x]) ! length ys))"
        using step True by simp
      have b: "\<forall>j < length (ys @ [x]). ?D ((ys @ [x]) ! length ys) \<le> ?D ((ys @ [x]) ! j)"
      proof (intro allI impI)
        fix j assume "j < length (ys @ [x])"
        then consider "j < length ys" | "j = length ys" by fastforce
        then show "?D ((ys @ [x]) ! length ys) \<le> ?D ((ys @ [x]) ! j)"
        proof cases
          case 1
          then have "?D (ys ! i) \<le> ?D (ys ! j)" using mn by simp
          then show ?thesis using True 1 by (simp add: nth_append)
        next
          case 2
          then show ?thesis by simp
        qed
      qed
      have d: "\<forall>j < length ys. ?D ((ys @ [x]) ! length ys) < ?D ((ys @ [x]) ! j)"
      proof (intro allI impI)
        fix j assume j: "j < length ys"
        then have "?D (ys ! i) \<le> ?D (ys ! j)" using mn by simp
        then show "?D ((ys @ [x]) ! length ys) < ?D ((ys @ [x]) ! j)"
          using True j by (simp add: nth_append)
      qed
      have "length ys < length (ys @ [x])" by simp
      then show ?thesis using a b d by blast
    next
      case nlt: False
      have a: "?F (ys @ [x]) = Some (?C ((ys @ [x]) ! i))"
        using step nlt i by (simp add: nth_append)
      have b: "\<forall>j < length (ys @ [x]). ?D ((ys @ [x]) ! i) \<le> ?D ((ys @ [x]) ! j)"
      proof (intro allI impI)
        fix j assume "j < length (ys @ [x])"
        then consider "j < length ys" | "j = length ys" by fastforce
        then show "?D ((ys @ [x]) ! i) \<le> ?D ((ys @ [x]) ! j)"
        proof cases
          case 1
          then show ?thesis using mn i by (simp add: nth_append)
        next
          case 2
          then show ?thesis using nlt i by (simp add: nth_append)
        qed
      qed
      have d: "\<forall>j < i. ?D ((ys @ [x]) ! i) < ?D ((ys @ [x]) ! j)"
        using fs i by (simp add: nth_append)
      have "i < length (ys @ [x])" using i by simp
      then show ?thesis using a b d by blast
    qed
  qed
qed

lemma hypot_zero_iff: "hypot dx dy = 0 \<longleftrightarrow> dx = 0 \<and> dy = 0"
  by (simp add: hypot_def sum_squares_eq_zero_iff)

lemma hypot_nonneg: "0 \<le> hypot dx dy"
  by (simp add: hypot_def)

lemma distOf_zero_iff:
  "distOf c S mx my p = 0
     \<longleftrightarrow> xScale c S (real_of_int (px p)) = mx \<and> yScale c (py p) = my"
  by (simp add: distOf_def Let_def hypot_zero_iff)

lemma distOf_nonneg: "0 \<le> distOf c S mx my p"
  by (simp add: distOf_def Let_def hypot_nonneg)

lemma pointsInOrder_empty: "pointsInOrder ser = [] \<longleftrightarrow> allPoints ser = []"
  by (induction ser) (simp_all add: pointsInOrder_def allPoints_def)

lemma handleMouse_candidate:
  "nearest c ser mx my = Some (candidate (fst sp) (snd sp) d)
   \<Longrightarrow> handleMouse c ser mx my = Some (payload sp)"
  by (simp add: handleMouse_def candidate_def payload_def)


lemma handleMouse_empty: "allPoints ser = [] \<Longrightarrow> handleMouse c ser mx my = None"
proof -
  assume "allPoints ser = []"
  then have "pointsInOrder ser = []" by (simp add: pointsInOrder_empty)
  then have "nearest c ser mx my = None"
    unfolding nearest_def fold_points_flat by simp
  then show ?thesis by (simp add: handleMouse_def)
qed

text \<open>
  Claim C8. When the visible series hold at least one point, hover resolution returns
  the payload of the point (with the label and colour of its series) whose projection
  through \<open>xScale\<close> and \<open>yScale\<close> has the least Euclidean distance to the pointer
  \<open>(mx, my)\<close> among all points of all series, and among the points at that least
  distance the first in iteration order (series by series, each series point by point).
  A pointer exactly at the screen coordinates of a rendered point gets a point at
  distance zero rendered at the pointer: that point, or an earlier one drawn at the same
  place. With no point at all the result is \<^verbatim>\<open>null\<close>.
\<close>

theorem handleMouse_nearest_point:
  "(allPoints ser = [] \<longrightarrow> handleMouse c ser mx my = None)
   \<and> (allPoints ser \<noteq> [] \<longrightarrow>
        (\<exists>i < length (pointsInOrder ser).
           handleMouse c ser mx my = Some (payload (pointsInOrder ser ! i))
           \<and> (\<forall>j < length (pointsInOrder ser).
                 distOf c ser mx my (snd (pointsInOrder ser ! i))
                   \<le> distOf c ser mx my (snd (pointsInOrder ser ! j)))
           \<and> (\<forall>j < i.
                 distOf c ser mx my (snd (pointsInOrder ser ! i))
                   < distOf c ser mx my (snd (pointsInOrder ser ! j)))
           \<and> (\<forall>k < length (pointsInOrder ser).
                 xScale c ser (real_of_int (px (snd (pointsInOrder ser ! k)))) = mx
                 \<and> yScale c (py (snd (pointsInOrder ser ! k))) = my
                 \<longrightarrow> distOf c ser mx my (snd (pointsInOrder ser ! i)) = 0
                     \<and> i \<le> k
                     \<and> xScale c ser (real_of_int (px (snd (pointsInOrder ser ! i)))) = mx
                     \<and> yScale c (py (snd (pointsInOrder ser ! i))) = my)))
   \<and> distOf c ser mx my p
        = sqrt ((xScale c ser (real_of_int (px p)) - mx)\<^sup>2 + (yScale c (py p) - my)\<^sup>2)"
proof (intro conjI impI)
  assume "allPoints ser = []"
  then show "handleMouse c ser mx my = None"
    by (rule handleMouse_empty)
next
  let ?ps = "pointsInOrder ser"
  let ?D = "\<lambda>sp. distOf c ser mx my (snd sp)"
  assume "allPoints ser \<noteq> []"
  then have ne: "?ps \<noteq> []"
    by (simp add: pointsInOrder_empty)
  obtain i where i: "i < length ?ps"
    and fi: "fold (\<lambda>sp. nearer c ser mx my (fst sp) (snd sp)) ?ps None
               = Some (candidate (fst (?ps ! i)) (snd (?ps ! i)) (?D (?ps ! i)))"
    and mn: "\<forall>j < length ?ps. ?D (?ps ! i) \<le> ?D (?ps ! j)"
    and fs: "\<forall>j < i. ?D (?ps ! i) < ?D (?ps ! j)"
    using fold_nearer_first_min [OF ne, of c ser mx my] by blast
  have "nearest c ser mx my = Some (candidate (fst (?ps ! i)) (snd (?ps ! i)) (?D (?ps ! i)))"
    unfolding nearest_def fold_points_flat by (rule fi)
  then have hm: "handleMouse c ser mx my = Some (payload (?ps ! i))"
    by (rule handleMouse_candidate)
  have at: "\<forall>k < length ?ps.
              xScale c ser (real_of_int (px (snd (?ps ! k)))) = mx \<and> yScale c (py (snd (?ps ! k))) = my
              \<longrightarrow> ?D (?ps ! i) = 0 \<and> i \<le> k
                  \<and> xScale c ser (real_of_int (px (snd (?ps ! i)))) = mx
                  \<and> yScale c (py (snd (?ps ! i))) = my"
  proof (intro allI impI)
    fix k
    assume k: "k < length ?ps"
      and "xScale c ser (real_of_int (px (snd (?ps ! k)))) = mx \<and> yScale c (py (snd (?ps ! k))) = my"
    then have dk: "?D (?ps ! k) = 0"
      by (simp add: distOf_zero_iff)
    have "?D (?ps ! i) \<le> ?D (?ps ! k)" using mn k by simp
    then have di: "?D (?ps ! i) = 0"
      using dk distOf_nonneg [of c ser mx my "snd (?ps ! i)"] by linarith
    have "i \<le> k"
    proof (rule ccontr)
      assume "\<not> i \<le> k"
      then have "k < i" by simp
      then have "?D (?ps ! i) < ?D (?ps ! k)" using fs by simp
      then show False using di dk by simp
    qed
    then show "?D (?ps ! i) = 0 \<and> i \<le> k
                  \<and> xScale c ser (real_of_int (px (snd (?ps ! i)))) = mx
                  \<and> yScale c (py (snd (?ps ! i))) = my"
      using di by (simp add: distOf_zero_iff)
  qed
  show "\<exists>i < length ?ps.
           handleMouse c ser mx my = Some (payload (?ps ! i))
           \<and> (\<forall>j < length ?ps. ?D (?ps ! i) \<le> ?D (?ps ! j))
           \<and> (\<forall>j < i. ?D (?ps ! i) < ?D (?ps ! j))
           \<and> (\<forall>k < length ?ps.
                 xScale c ser (real_of_int (px (snd (?ps ! k)))) = mx
                 \<and> yScale c (py (snd (?ps ! k))) = my
                 \<longrightarrow> ?D (?ps ! i) = 0 \<and> i \<le> k
                     \<and> xScale c ser (real_of_int (px (snd (?ps ! i)))) = mx
                     \<and> yScale c (py (snd (?ps ! i))) = my)"
    using i hm mn fs at by blast
next
  show "distOf c ser mx my p
        = sqrt ((xScale c ser (real_of_int (px p)) - mx)\<^sup>2 + (yScale c (py p) - my)\<^sup>2)"
    by (simp add: distOf_def Let_def hypot_def power2_eq_square)
qed

lemma sample_order:
  "pointsInOrder sampleSeries ! 0 = (sampleSeries ! 0, \<lparr>px = 1000, py = 60, pt = ''t1'', pid = 1\<rparr>)
   \<and> pointsInOrder sampleSeries ! Suc 0 = (sampleSeries ! 0, \<lparr>px = 2000, py = 70, pt = ''t2'', pid = 2\<rparr>)
   \<and> pointsInOrder sampleSeries ! 2 = (sampleSeries ! 0, \<lparr>px = 3000, py = 80, pt = ''t3'', pid = 3\<rparr>)
   \<and> pointsInOrder sampleSeries ! 5 = (sampleSeries ! Suc 0, \<lparr>px = 3000, py = 80, pt = ''t3'', pid = 3\<rparr>)
   \<and> length (pointsInOrder sampleSeries) = 6"
  by (simp add: pointsInOrder_def sampleSeries_def samplePoints_def)

lemma sample_xScale:
  "xScale defaultChart sampleSeries 1000 = 36 \<and> xScale defaultChart sampleSeries 2000 = 312
   \<and> xScale defaultChart sampleSeries 3000 = 588"
  by (simp add: xScale_def xDenom_def sample_minmax defaultChart_def w_def)

theorem handleMouse_nearest_point_witness:
  "allPoints sampleSeries \<noteq> []
   \<and> handleMouse defaultChart sampleSeries
        (xScale defaultChart sampleSeries 3000) (yScale defaultChart 80)
       = Some \<lparr>hlabel = ''Overall'', hx = 3000, hy = 80, ht = ''t3'', hcolor = ''#22d3ee'', hid = 3\<rparr>
   \<and> distOf defaultChart sampleSeries
        (xScale defaultChart sampleSeries 3000) (yScale defaultChart 80)
        \<lparr>px = 3000, py = 80, pt = ''t3'', pid = 3\<rparr> = 0"
proof -
  let ?mx = "xScale defaultChart sampleSeries 3000"
  let ?my = "yScale defaultChart 80"
  let ?ps = "pointsInOrder sampleSeries"
  have ne: "allPoints sampleSeries \<noteq> []"
    by (simp add: allPoints_def sampleSeries_def samplePoints_def)
  have k: "(2::nat) < length ?ps
           \<and> xScale defaultChart sampleSeries (real_of_int (px (snd (?ps ! 2)))) = ?mx
           \<and> yScale defaultChart (py (snd (?ps ! 2))) = ?my"
    by (simp add: sample_order)
  obtain i where hm: "handleMouse defaultChart sampleSeries ?mx ?my = Some (payload (?ps ! i))"
    and i2: "i \<le> 2"
    and xi: "xScale defaultChart sampleSeries (real_of_int (px (snd (?ps ! i)))) = ?mx"
    using handleMouse_nearest_point [of sampleSeries defaultChart ?mx ?my] ne k by blast
  have n0: "xScale defaultChart sampleSeries (real_of_int (px (snd (?ps ! 0)))) \<noteq> ?mx"
    by (simp add: sample_order sample_xScale)
  have n1: "xScale defaultChart sampleSeries (real_of_int (px (snd (?ps ! 1)))) \<noteq> ?mx"
    by (simp add: sample_order sample_xScale)
  have i0: "i \<noteq> 0"
  proof
    assume "i = 0"
    then show False using xi n0 by simp
  qed
  have i1: "i \<noteq> 1"
  proof
    assume "i = 1"
    then show False using xi n1 by simp
  qed
  have "i = 2"
    using i0 i1 i2 by arith
  have fst0: "slabel (sampleSeries ! 0) = ''Overall'' \<and> scolor (sampleSeries ! 0) = ''#22d3ee''"
    by (simp add: sampleSeries_def)
  have pay: "payload (?ps ! 2)
       = \<lparr>hlabel = ''Overall'', hx = 3000, hy = 80, ht = ''t3'', hcolor = ''#22d3ee'', hid = 3\<rparr>"
    by (simp add: sample_order payload_def fst0)
  have a: "handleMouse defaultChart sampleSeries ?mx ?my
       = Some \<lparr>hlabel = ''Overall'', hx = 3000, hy = 80, ht = ''t3'', hcolor = ''#22d3ee'', hid = 3\<rparr>"
    using hm \<open>i = 2\<close> pay by simp
  have b: "distOf defaultChart sampleSeries ?mx ?my \<lparr>px = 3000, py = 80, pt = ''t3'', pid = 3\<rparr> = 0"
    by (simp add: distOf_zero_iff)
  show ?thesis using ne a b by simp
qed

section \<open>Properties of the totals\<close>

lemma foldl_add: "foldl (+) a xs = a + sum_list xs" for a :: real
  by (induction xs arbitrary: a) auto

lemma numbers_typed:
  "list_all isNumOrNull vs \<Longrightarrow> numbers vs = map theNum (filter (\<lambda>v. v \<noteq> JNull) vs)"
proof (induction vs)
  case Nil
  then show ?case by simp
next
  case (Cons v vs)
  then show ?case by (cases v) simp_all
qed

lemma keys_all: "k \<in> set keys"
  by (cases k) (simp_all add: keys_def)

lemma scoresTyped_scores:
  assumes "scoresTyped hist" and sub: "set eff \<subseteq> set hist"
  shows "list_all isNumOrNull (map (\<lambda>it. scoreOf (feedback it) k) eff)"
proof -
  have "\<forall>it \<in> set hist. isNumOrNull (scoreOf (feedback it) k)"
    using assms(1) keys_all [of k] by (auto simp: scoresTyped_def list_all_iff)
  then show ?thesis using sub by (auto simp: list_all_iff)
qed

lemma numbers_resolved:
  assumes "scoresTyped hist" "set eff \<subseteq> set hist"
  shows "numbers (map (\<lambda>it. scoreOf (feedback it) k) eff) = resolvedScores eff k"
  unfolding resolvedScores_def
  using assms by (intro numbers_typed scoresTyped_scores)








lemma scoreOf_feedbackWith:
  "scoreOf (feedbackWith dl rest) k = JNum (if k = Delivery then dl else rest)"
  by (cases k)
    (simp_all add: feedbackWith_def scoreOf_def inlineScore_def fromBlock_def optProp_def nullish_def)




lemma recent_filtered: "map item_id (filtered sampleNow R7 recentHistory) = [2, 3, 5, 6]"
  by (simp add: filtered_def recentHistory_def sampleNow_def)








section \<open>Properties of the insights\<close>

lemma sort_key_head:
  assumes "sort_key f xs = y # ys"
  shows "y \<in> set xs"
    and "\<forall>x \<in> set xs. f y \<le> f x"
    and "hd (filter (\<lambda>x. f x = f y) xs) = y"
proof -
  have "set (sort_key f xs) = set xs" by simp
  then show mem: "y \<in> set xs" using assms by auto
  have "sorted (map f (sort_key f xs))" by (rule sorted_sort_key)
  then have "\<forall>x \<in> set (sort_key f xs). f y \<le> f x"
    using assms by auto
  then show "\<forall>x \<in> set xs. f y \<le> f x" by simp
  have "filter (\<lambda>x. f x = f y) xs = filter (\<lambda>x. f x = f y) (sort_key f xs)"
    by (rule sort_key_stable [symmetric])
  also have "\<dots> = y # filter (\<lambda>x. f x = f y) ys"
    using assms by simp
  finally show "hd (filter (\<lambda>x. f x = f y) xs) = y" by simp
qed

lemma orZero_Some: "orZero (Some d) = d"
  by simp

lemma deltaOf_spec:
  assumes "scoresTyped srt"
  shows "deltaOf srt k = deltaSpec srt k"
proof -
  let ?h = "length srt div 2"
  have a: "numbers (map (\<lambda>h. scoreOf (feedback h) k) (take ?h srt)) = resolvedScores (take ?h srt) k"
    using assms by (intro numbers_resolved) (auto dest: in_set_takeD)
  have b: "numbers (map (\<lambda>h. scoreOf (feedback h) k) (drop ?h srt)) = resolvedScores (drop ?h srt) k"
    using assms by (intro numbers_resolved) (auto dest: in_set_dropD)
  show ?thesis
    unfolding deltaOf_def deltaSpec_def Let_def a b avg_def foldl_add mean_def
    by simp
qed

lemma deltas_nonempty: "deltas srt \<noteq> []"
proof -
  have "length (deltas srt) = 5"
    by (simp add: deltas_def keys_def)
  then show ?thesis by auto
qed

lemma mostImproved_first_max:
  assumes ne: "srt \<noteq> []"
  shows "\<exists>k. mostImproved srt = Some (k, deltaOf srt k)
           \<and> (\<forall>k'. deltaOf srt k' \<le> deltaOf srt k)
           \<and> k = hd (filter (\<lambda>k'. deltaOf srt k' = deltaOf srt k) keys)"
proof -
  let ?g = "\<lambda>k. (k, deltaOf srt k)"
  let ?f = "\<lambda>d :: category \<times> real. - orZero (Some (snd d))"
  obtain y ys where ys: "sort_key ?f (map ?g keys) = y # ys"
    using deltas_nonempty [of srt] by (cases "deltas srt") (auto simp: deltas_def)
  have mi: "mostImproved srt = Some y"
    using ne ys by (simp add: mostImproved_def deltas_def)
  have mem: "y \<in> set (map ?g keys)"
    using ys by (rule sort_key_head)
  then have y: "y = (fst y, deltaOf srt (fst y))"
    by auto
  have le: "\<forall>x \<in> set (map ?g keys). ?f y \<le> ?f x"
    using ys by (rule sort_key_head)
  have mx: "\<forall>k'. deltaOf srt k' \<le> deltaOf srt (fst y)"
  proof
    fix k'
    have "?g k' \<in> set (map ?g keys)" using keys_all [of k'] by simp
    then have "?f y \<le> ?f (?g k')" using le by blast
    then show "deltaOf srt k' \<le> deltaOf srt (fst y)"
      using y by (simp only: orZero_Some snd_conv) (metis neg_le_iff_le snd_conv)
  qed
  have hdf: "hd (filter (\<lambda>x. ?f x = ?f y) (map ?g keys)) = y"
    using ys by (rule sort_key_head)
  have flt: "filter (\<lambda>x. ?f x = ?f y) (map ?g keys)
               = map ?g (filter (\<lambda>k'. deltaOf srt k' = deltaOf srt (fst y)) keys)"
    using y by (simp add: filter_map comp_def) (metis snd_conv)
  have "fst y \<in> set (filter (\<lambda>k'. deltaOf srt k' = deltaOf srt (fst y)) keys)"
    using keys_all [of "fst y"] by simp
  then have nef: "filter (\<lambda>k'. deltaOf srt k' = deltaOf srt (fst y)) keys \<noteq> []"
    by (metis empty_iff empty_set)
  have "y = ?g (hd (filter (\<lambda>k'. deltaOf srt k' = deltaOf srt (fst y)) keys))"
    using hdf nef unfolding flt by (simp add: hd_map)
  then have first: "fst y = hd (filter (\<lambda>k'. deltaOf srt k' = deltaOf srt (fst y)) keys)"
    by (metis fst_conv)
  show ?thesis
    using mi y mx first by metis
qed


lemma four_deltaOf: "deltaOf fourSessions k = (if k = Delivery then 40 else 0)"
  by (simp add: deltaOf_def fourSessions_def scoreOf_feedbackWith avg_def)

lemma four_mostImproved: "mostImproved fourSessions = Some (Delivery, 40)"
proof -
  have "deltas fourSessions
          = [(Delivery, 40), (Opening, 0), (Content, 0), (Grammar, 0), (Overall, 0)]"
    by (simp add: deltas_def keys_def four_deltaOf)
  moreover have "length fourSessions \<noteq> 0"
    by (simp add: fourSessions_def)
  ultimately show ?thesis
    by (simp add: mostImproved_def)
qed

lemma four_typed: "scoresTyped fourSessions"
  by (simp add: scoresTyped_def fourSessions_def keys_def scoreOf_feedbackWith)

text \<open>
  Claim C4. For a non-empty history of length \<open>n\<close> whose resolved scores are numbers
  or \<^verbatim>\<open>null\<close>, the most-improved computation splits the history at index
  \<open>n div 2\<close>, takes for each category the mean of the non-null resolved scores of
  each half, with delta the later mean minus the earlier one and 0 when a half has no
  resolved score (a real number, never NaN), and reports a category of largest delta
  with that delta: the first such category in the order opening, content, delivery,
  grammar, overall. Delivery scores 50, 50, 90, 90 with every other category at 70
  give delivery with delta 40.
\<close>

theorem mostImproved_largest_delta:
  "(srt \<noteq> [] \<and> scoresTyped srt \<longrightarrow>
      (\<exists>k. mostImproved srt = Some (k, deltaSpec srt k)
           \<and> (\<forall>k'. deltaSpec srt k' \<le> deltaSpec srt k)
           \<and> k = hd (filter (\<lambda>k'. deltaSpec srt k' = deltaSpec srt k) keys)))
   \<and> mostImproved fourSessions = Some (Delivery, 40)"
proof (intro conjI impI)
  assume h: "srt \<noteq> [] \<and> scoresTyped srt"
  then have eq: "deltaOf srt = deltaSpec srt"
    using deltaOf_spec by blast
  show "\<exists>k. mostImproved srt = Some (k, deltaSpec srt k)
           \<and> (\<forall>k'. deltaSpec srt k' \<le> deltaSpec srt k)
           \<and> k = hd (filter (\<lambda>k'. deltaSpec srt k' = deltaSpec srt k) keys)"
    using mostImproved_first_max [of srt] h unfolding eq by blast
next
  show "mostImproved fourSessions = Some (Delivery, 40)"
    by (rule four_mostImproved)
qed

theorem mostImproved_largest_delta_witness:
  "fourSessions \<noteq> [] \<and> scoresTyped fourSessions
   \<and> mostImproved fourSessions = Some (Delivery, 40)
   \<and> deltaSpec fourSessions Delivery = 40
   \<and> (\<forall>k'. deltaSpec fourSessions k' \<le> 40)"
proof -
  have ne: "fourSessions \<noteq> []"
    by (simp add: fourSessions_def)
  note t = mostImproved_largest_delta [of fourSessions]
  have ex: "mostImproved fourSessions = Some (Delivery, 40)"
    using t by blast
  obtain k where k: "mostImproved fourSessions = Some (k, deltaSpec fourSessions k)"
    and mx: "\<forall>k'. deltaSpec fourSessions k' \<le> deltaSpec fourSessions k"
    using t ne four_typed by blast
  have kd: "k = Delivery"
    using k ex by simp
  have d40: "deltaSpec fourSessions Delivery = 40"
    using k ex kd by simp
  have "\<forall>k'. deltaSpec fourSessions k' \<le> 40"
    using mx kd d40 by simp
  then show ?thesis
    using ne four_typed ex d40 by simp
qed

section \<open>Properties of the CSV export\<close>

lemma two_csv:
  "exportCsv sampleNumStr sampleISO twoSessions
     = ''id,date,opening,content,delivery,grammar,overall'' @ [newline]
       @ ''1,2025-03-10T16:00:00.000Z,72,72,50,72,72'' @ [newline]
       @ ''2,,,,,,'' @ [dquote] @ ''7,5'' @ [dquote]"
  by code_simp

lemma two_no_transcript:
  "\<not> sublist ''Hello'' (exportCsv sampleNumStr sampleISO twoSessions)"
  unfolding two_csv by code_simp


lemma csvRow_transcript:
  "csvRow numStr toISO (it\<lparr>transcript := tr\<rparr>) = csvRow numStr toISO it"
  by (simp add: csvRow_def)

lemma exportCsv_transcript:
  "exportCsv numStr toISO (map (\<lambda>it. it\<lparr>transcript := f it\<rparr>) srt) = exportCsv numStr toISO srt"
  by (simp add: exportCsv_def csvRow_transcript comp_def)

lemma needsQuote_iff:
  "needsQuote cell \<longleftrightarrow> CHR '','' \<in> set cell \<or> dquote \<in> set cell \<or> newline \<in> set cell"
  by (auto simp: needsQuote_def list_ex_iff)

text \<open>
  Claim C7, as amended. The CSV document has the seven columns id, date, opening,
  content, delivery, grammar, overall and no column for the transcript: changing the
  transcripts of the history leaves the document unchanged. Every cell that contains a
  comma, a double quote or a newline is written wrapped in double quotes with its
  internal double quotes doubled, and every other cell is written as it is.
\<close>

theorem exportCsv_quoting:
  "exportCsv numStr toISO (map (\<lambda>it. it\<lparr>transcript := f it\<rparr>) srt) = exportCsv numStr toISO srt
   \<and> exportCsv numStr toISO srt
       = joinWith [newline]
           (map (\<lambda>r. joinWith '','' (map quoteCell r)) (header # map (csvRow numStr toISO) srt))
   \<and> header = [''id'', ''date'', ''opening'', ''content'', ''delivery'', ''grammar'', ''overall'']
   \<and> length (csvRow numStr toISO it) = 7
   \<and> (needsQuote cell \<longleftrightarrow>
        CHR '','' \<in> set cell \<or> dquote \<in> set cell \<or> newline \<in> set cell)
   \<and> (needsQuote cell \<longrightarrow> quoteCell cell = [dquote] @ doubleQuotes cell @ [dquote])
   \<and> (\<not> needsQuote cell \<longrightarrow> quoteCell cell = cell)
   \<and> doubleQuotes (a @ [dquote] @ b) = doubleQuotes a @ [dquote, dquote] @ doubleQuotes b
   \<and> (dquote \<notin> set cell \<longrightarrow> doubleQuotes cell = cell)"
proof (intro conjI impI)
  show "exportCsv numStr toISO (map (\<lambda>it. it\<lparr>transcript := f it\<rparr>) srt)
          = exportCsv numStr toISO srt"
    by (rule exportCsv_transcript)
  show "exportCsv numStr toISO srt
       = joinWith [newline]
           (map (\<lambda>r. joinWith '','' (map quoteCell r)) (header # map (csvRow numStr toISO) srt))"
    by (simp add: exportCsv_def)
  show "header = [''id'', ''date'', ''opening'', ''content'', ''delivery'', ''grammar'', ''overall'']"
    by (simp add: header_def)
  show "length (csvRow numStr toISO it) = 7"
    by (simp add: csvRow_def)
  show "needsQuote cell \<longleftrightarrow>
        CHR '','' \<in> set cell \<or> dquote \<in> set cell \<or> newline \<in> set cell"
    by (rule needsQuote_iff)
  show "doubleQuotes (a @ [dquote] @ b) = doubleQuotes a @ [dquote, dquote] @ doubleQuotes b"
    by (simp add: doubleQuotes_def)
next
  assume "needsQuote cell"
  then show "quoteCell cell = [dquote] @ doubleQuotes cell @ [dquote]"
    by (simp add: quoteCell_def)
next
  assume "\<not> needsQuote cell"
  then show "quoteCell cell = cell"
    by (simp add: quoteCell_def)
next
  assume "dquote \<notin> set cell"
  then show "doubleQuotes cell = cell"
    by (induction cell) (auto simp: doubleQuotes_def)
qed

theorem exportCsv_quoting_witness:
  "needsQuote ''7,5''
   \<and> quoteCell ''7,5'' = [dquote] @ ''7,5'' @ [dquote]
   \<and> \<not> needsQuote ''72''
   \<and> quoteCell ''72'' = ''72''
   \<and> quoteCell (''say '' @ [dquote] @ ''hi'' @ [dquote])
       = [dquote] @ ''say '' @ [dquote, dquote] @ ''hi'' @ [dquote, dquote] @ [dquote]
   \<and> exportCsv sampleNumStr sampleISO twoSessions
       = ''id,date,opening,content,delivery,grammar,overall'' @ [newline]
         @ ''1,2025-03-10T16:00:00.000Z,72,72,50,72,72'' @ [newline]
         @ ''2,,,,,,'' @ [dquote] @ ''7,5'' @ [dquote]"
proof -
  have n1: "needsQuote ''7,5''" by (simp add: needsQuote_def)
  have n2: "\<not> needsQuote ''72''" by (simp add: needsQuote_def dquote_def newline_def)
  have n3: "needsQuote (''say '' @ [dquote] @ ''hi'' @ [dquote])" by (simp add: needsQuote_def)
  have d1: "dquote \<notin> set ''7,5''" by (simp add: dquote_def)
  have q1: "quoteCell ''7,5'' = [dquote] @ ''7,5'' @ [dquote]"
    using exportCsv_quoting [where cell = "''7,5''"] n1 d1 by simp
  have q2: "quoteCell ''72'' = ''72''"
    using exportCsv_quoting [where cell = "''72''"] n2 by blast
  have q3: "quoteCell (''say '' @ [dquote] @ ''hi'' @ [dquote])
       = [dquote] @ ''say '' @ [dquote, dquote] @ ''hi'' @ [dquote, dquote] @ [dquote]"
    using exportCsv_quoting [where cell = "''say '' @ [dquote] @ ''hi'' @ [dquote]"] n3
    by (simp add: doubleQuotes_def dquote_def)
  show ?thesis
    using n1 n2 q1 q2 q3 two_csv by simp
qed

text \<open>
  Claim C7 as stated fails: the first of the two sample sessions has the transcript
  \<^verbatim>\<open>Hello, world\<close>, which contains a comma, and the exported document contains neither
  the quoted transcript nor any part of it.
\<close>

theorem exportCsv_transcript_counterexample:
  "map transcript twoSessions = [Some ''Hello, world'', Some ''Plain words'']
   \<and> CHR '','' \<in> set ''Hello, world''
   \<and> quoteCell ''Hello, world'' = [dquote] @ ''Hello, world'' @ [dquote]
   \<and> \<not> sublist (quoteCell ''Hello, world'') (exportCsv sampleNumStr sampleISO twoSessions)
   \<and> \<not> sublist ''Hello'' (exportCsv sampleNumStr sampleISO twoSessions)
   \<and> exportCsv sampleNumStr sampleISO twoSessions
       = ''id,date,opening,content,delivery,grammar,overall'' @ [newline]
         @ ''1,2025-03-10T16:00:00.000Z,72,72,50,72,72'' @ [newline]
         @ ''2,,,,,,'' @ [dquote] @ ''7,5'' @ [dquote]"
proof -
  have t: "map transcript twoSessions = [Some ''Hello, world'', Some ''Plain words'']"
    by (simp add: twoSessions_def)
  have q: "quoteCell ''Hello, world'' = [dquote] @ ''Hello, world'' @ [dquote]"
    by (simp add: quoteCell_def needsQuote_def doubleQuotes_def dquote_def)
  have s1: "\<not> sublist ([dquote] @ ''Hello, world'' @ [dquote])
              (exportCsv sampleNumStr sampleISO twoSessions)"
    unfolding two_csv by code_simp
  show ?thesis
    using t q s1 two_no_transcript two_csv by simp
qed

section \<open>Properties of the streak\<close>

lemma calendarStreak_set:
  "set days = set days' \<Longrightarrow> calendarStreak dayStart days m fuel = calendarStreak dayStart days' m fuel"
  by (induction fuel arbitrary: m) simp_all

lemma streakLoop_calendar:
  assumes step: "\<And>t. dayStart (dayStart t - 1) = dayStart t - 86400000"
  shows "card {d \<in> set days. d \<le> dayStart t} \<le> fuel
         \<Longrightarrow> streakLoop days (dayStart t) s = s + calendarStreak dayStart days (dayStart t) fuel"
proof (induction fuel arbitrary: t s)
  case 0
  then have "{d \<in> set days. d \<le> dayStart t} = {}"
    by simp
  then have "dayStart t \<notin> set days"
    by auto
  then show ?case
    by (simp add: streakLoop.simps [of days "dayStart t" s])
next
  case (Suc fuel)
  show ?case
  proof (cases "dayStart t \<in> set days")
    case False
    then show ?thesis
      by (simp add: streakLoop.simps [of days "dayStart t" s])
  next
    case True
    let ?m = "dayStart t"
    have prev: "?m - 24 * 3600 * 1000 = dayStart (?m - 1)"
      by (simp add: step)
    have sub: "{d \<in> set days. d \<le> dayStart (?m - 1)} \<subseteq> {d \<in> set days. d \<le> ?m}"
      by (auto simp: step)
    have "?m \<in> {d \<in> set days. d \<le> ?m}" "?m \<notin> {d \<in> set days. d \<le> dayStart (?m - 1)}"
      using True by (simp_all add: step)
    then have "{d \<in> set days. d \<le> dayStart (?m - 1)} \<subset> {d \<in> set days. d \<le> ?m}"
      using sub by blast
    then have "card {d \<in> set days. d \<le> dayStart (?m - 1)} < card {d \<in> set days. d \<le> ?m}"
      by (intro psubset_card_mono) simp_all
    then have "card {d \<in> set days. d \<le> dayStart (?m - 1)} \<le> fuel"
      using Suc.prems by simp
    then have ih: "streakLoop days (dayStart (?m - 1)) (s + 1)
                     = s + 1 + calendarStreak dayStart days (dayStart (?m - 1)) fuel"
      by (rule Suc.IH)
    have "streakLoop days ?m s = streakLoop days (?m - 24 * 3600 * 1000) (s + 1)"
      using True by (simp add: streakLoop.simps [of days ?m s])
    then show ?thesis
      using True ih unfolding prev by simp
  qed
qed

lemma streakDays_set:
  assumes "\<forall>it \<in> set hist. \<forall>t. created_at it = Some t \<longrightarrow> dayStart t \<noteq> 0"
  shows "set (streakDays dayStart hist) = set (recordDays dayStart hist)"
proof -
  have "List.map_filter
          (\<lambda>it. case created_at it of
                   None \<Rightarrow> None
                 | Some t \<Rightarrow> if dayStart t = 0 then None else Some (dayStart t)) hist
        = List.map_filter (\<lambda>it. map_option dayStart (created_at it)) hist"
    using assms
  proof (induction hist)
    case Nil
    then show ?case by (simp add: List.map_filter_simps)
  next
    case (Cons a hist)
    then show ?case
      by (cases "created_at a") (simp_all add: List.map_filter_simps)
  qed
  then show ?thesis
    by (simp add: streakDays_def recordDays_def)
qed

lemma streak_calendar_days:
  assumes step: "\<And>t. dayStart (dayStart t - 1) = dayStart t - 86400000"
    and nz: "\<forall>it \<in> set hist. \<forall>t. created_at it = Some t \<longrightarrow> dayStart t \<noteq> 0"
  shows "streak dayStart now hist = streakSpec dayStart now hist"
proof -
  let ?days = "streakDays dayStart hist"
  let ?rec = "recordDays dayStart hist"
  have st: "set ?days = set ?rec"
    using nz by (rule streakDays_set)
  have "card {d \<in> set ?days. d \<le> dayStart now} \<le> card (set ?rec)"
    unfolding st by (intro card_mono) auto
  also have "\<dots> \<le> length ?rec"
    by (rule card_length)
  finally have "streakLoop ?days (dayStart now) 0
                  = 0 + calendarStreak dayStart ?days (dayStart now) (length ?rec)"
    using streakLoop_calendar [OF step] by blast
  then have loop: "streakLoop ?days (dayStart now) 0 = streakSpec dayStart now hist"
    using calendarStreak_set [OF st] by (simp add: streakSpec_def)
  show ?thesis
  proof (cases "?days = []")
    case True
    then have "?rec = []" using st by simp
    then show ?thesis using True by (simp add: streak_def streakSpec_def)
  next
    case False
    then have "hist \<noteq> []"
      by (auto simp: streakDays_def List.map_filter_simps)
    then show ?thesis using False loop by (simp add: streak_def)
  qed
qed

lemma utcDayStart_step: "utcDayStart (utcDayStart t - 1) = utcDayStart t - 86400000"
proof -
  have "(t - t mod 86400000 - 1) mod 86400000 = 86400000 - 1"
    by (simp add: mod_diff_eq [symmetric] mod_simps) 
  then show ?thesis
    by (simp add: utcDayStart_def)
qed

lemma streak_utc:
  assumes "\<forall>it \<in> set hist. \<forall>t. created_at it = Some t \<longrightarrow> utcDayStart t \<noteq> 0"
  shows "streak utcDayStart now hist = streakSpec utcDayStart now hist"
  using utcDayStart_step assms by (rule streak_calendar_days)

lemma streak_utc_gap: "streak utcDayStart nyNow gapHistory = 2"
  by code_simp

lemma streakSpec_utc_gap: "streakSpec utcDayStart nyNow gapHistory = 2"
  by code_simp

text \<open>
  Claim C3 says that the streak is the number of consecutive local calendar days with a
  session, counted backward from today. \<open>streak_calendar_days\<close> shows that the code
  computes it wherever each local day lasts 24 hours (and no session falls on a day whose
  local midnight is the instant 0, which \<^verbatim>\<open>filter(Boolean)\<close> drops). The code steps
  back by 24 hours, not by one calendar day, so the claim fails across a change of the
  clock: in New York at noon of 10 March 2025, with a session that day and a session on
  9 March, the days marked are \<open>1741496400000\<close> (9 March, 00:00 UTC-5) and
  \<open>1741579200000\<close> (10 March, 00:00 UTC-4); the cursor starts at the second, steps to
  \<open>1741492800000\<close> (8 March, 23:00), which is no local midnight, and the loop stops:
  the streak is 1, where two consecutive calendar days have a session.
\<close>

theorem streak_misses_short_day:
  "streak nyDayStart nyNow nyHistory = 1
   \<and> streakSpec nyDayStart nyNow nyHistory = 2
   \<and> streakDays nyDayStart nyHistory = [1741496400000, 1741579200000]
   \<and> nyDayStart nyNow = 1741579200000
   \<and> nyDayStart nyNow - 24 * 3600 * 1000 = 1741492800000
   \<and> nyDayStart (nyDayStart nyNow - 1) = 1741496400000"
  by code_simp

end
